theory Spec2Isabelle
  imports Main
begin

section \<open>The deployer pipeline of main.go\<close>

text \<open>
  The repository's \<^verbatim>\<open>main.go\<close> holds one function, \<^verbatim>\<open>main\<close>, and its deferred
  helper \<^verbatim>\<open>exit\<close>. Everything \<^verbatim>\<open>main\<close> calls outside the Go standard library
  (\<^verbatim>\<open>LoadManifestFile\<close>, \<^verbatim>\<open>LoadPreset\<close>, the \<^verbatim>\<open>Execute...\<close> command runners, the
  \<^verbatim>\<open>tempfile\<close> package) lives in other files and packages. These collaborators are
  parameters of the model: a record of functions, each of which sees the
  history of the calls made so far, so that the same call may succeed once and fail later.
  The model threads an explicit state through the pipeline: the trace of collaborator
  calls with their outcome, and the accumulator \<^verbatim>\<open>usedImageNames\<close>.
\<close>

subsection \<open>Data\<close>

text \<open>
  \<^verbatim>\<open>Workload\<close>: the fields \<^verbatim>\<open>main\<close> reads (\<^verbatim>\<open>Cluster\<close>, \<^verbatim>\<open>Namespace\<close>, \<^verbatim>\<open>Type\<close>,
  \<^verbatim>\<open>Container\<close>, \<^verbatim>\<open>IsInit\<close>) and \<^verbatim>\<open>Name\<close>, the fourth segment of the address
  \<^verbatim>\<open>CLUSTER/NAMESPACE/TYPE/NAME[/CONTAINER]\<close> that the help text of the \<^verbatim>\<open>--workload\<close>
  flag documents.
\<close>

record Workload =
  Cluster :: string
  Namespace :: string
  Type :: string
  Name :: string
  Container :: string
  IsInit :: bool

text \<open>
  \<^verbatim>\<open>LimitOption\<close>: the fields \<^verbatim>\<open>Min\<close> and \<^verbatim>\<open>Max\<close>, printed by \<^verbatim>\<open>main\<close> with \<^verbatim>\<open>%d\<close>.
  The names carry a suffix, since \<open>Min\<close> and \<open>Max\<close> are constants of HOL.
\<close>

record LimitOption =
  Min_v :: int
  Max_v :: int

text \<open>
  Modelled from the spec: the method \<^verbatim>\<open>LimitOption.IsZero\<close>, declared outside
  \<^verbatim>\<open>main.go\<close>: true iff both fields are 0.
\<close>

definition IsZero :: "LimitOption \<Rightarrow> bool" where
  "IsZero l = (Min_v l = 0 \<and> Max_v l = 0)"

text \<open>\<^verbatim>\<open>Preset\<close>: the fields \<^verbatim>\<open>main\<close> reads.\<close>

record Preset =
  Registry :: string
  ImagePullSecrets :: "string list"
  RequestsCPU :: string
  RequestsMEM :: string
  LimitsCPU :: string
  LimitsMEM :: string

text \<open>
  The patch document, as \<^verbatim>\<open>main\<close> fills it. \<^verbatim>\<open>Requests\<close> and \<^verbatim>\<open>Limits\<close> of a
  container each hold \<^verbatim>\<open>CPU\<close> and \<^verbatim>\<open>Memory\<close>. The fields \<^verbatim>\<open>Image\<close>, \<^verbatim>\<open>Name\<close> and
  \<^verbatim>\<open>ImagePullPolicy\<close> occur in several Go structs; here each record prefixes them.
  The record \<open>Patch\<close> flattens the path \<^verbatim>\<open>p.Spec.Template\<close>: \<open>Timestamp\<close> is
  \<^verbatim>\<open>p.Spec.Template.Metadata.Annotations.Timestamp\<close>, the three lists are those of
  \<^verbatim>\<open>p.Spec.Template.Spec\<close>.
\<close>

record PatchResourceList =
  CPU :: string
  Memory :: string

record PatchResources =
  Requests :: PatchResourceList
  Limits :: PatchResourceList

record PatchContainer =
  c_Image :: string
  c_Name :: string
  c_ImagePullPolicy :: string
  c_Resources :: PatchResources

record PatchInitContainer =
  i_Image :: string
  i_Name :: string
  i_ImagePullPolicy :: string

record PatchImagePullSecret =
  s_Name :: string

record Patch =
  Timestamp :: string
  PatchImagePullSecrets :: "PatchImagePullSecret list"
  InitContainers :: "PatchInitContainer list"
  Containers :: "PatchContainer list"

text \<open>The command-line options, after \<^verbatim>\<open>flag.Parse\<close>.\<close>

record options =
  optManifest :: string
  optImage :: string
  optEnv :: string
  optWorkloads :: "Workload list"
  optCPU :: LimitOption
  optMEM :: LimitOption
  optSkipDeploy :: bool

subsection \<open>Errors, calls and the trace\<close>

text \<open>
  The value of the variable \<^verbatim>\<open>err\<close> of \<^verbatim>\<open>main\<close>: the error made at line 64 by
  \<^verbatim>\<open>errors.New\<close>, or the error a collaborator returned, with its message. \<open>GoPanic\<close>
  is not a value of \<^verbatim>\<open>err\<close>: it stands for a run-time panic, after which the deferred
  functions still run and the process ends with status 2.
\<close>

datatype error = MissingParameters | Failed string | GoPanic

datatype call =
    CLoadManifestFile string
  | CGenerateFiles string
  | CExecute string
  | CDockerBuild string string
  | CLoadPreset string
  | CWriteDirFile string string string bool
  | CDockerTag string string
  | CDockerPush string string
  | CWriteFile string string string bool
  | CKubectlPatch string string string string string
  | CDockerRemoveImage string
  | CTempDeleteAll

type_synonym event = "call \<times> bool"

text \<open>
  The collaborators. A command runner returns \<^verbatim>\<open>error\<close> (\<open>None\<close> is \<^verbatim>\<open>nil\<close>); a
  function with a result returns the message of its error or the result.
  \<open>GenerateFiles\<close> stands for \<^verbatim>\<open>m.Profile(optEnv).GenerateFiles()\<close>. \<open>Getenv\<close>,
  \<open>TrimSpace\<close>, \<open>JsonMarshal\<close> and \<open>NowRFC3339\<close> stand for \<^verbatim>\<open>os.Getenv\<close>,
  \<^verbatim>\<open>strings.TrimSpace\<close>, \<^verbatim>\<open>json.Marshal\<close> and \<^verbatim>\<open>time.Now().Format(time.RFC3339)\<close>.
\<close>

record 'm collab =
  Getenv :: "string \<Rightarrow> string"
  TrimSpace :: "string \<Rightarrow> string"
  JsonMarshal :: "Patch \<Rightarrow> string + string"
  NowRFC3339 :: "event list \<Rightarrow> string"
  LoadManifestFile :: "event list \<Rightarrow> string \<Rightarrow> string + 'm"
  GenerateFiles :: "event list \<Rightarrow> 'm \<Rightarrow> string \<Rightarrow> string + (string \<times> string)"
  Execute :: "event list \<Rightarrow> string \<Rightarrow> string option"
  ExecuteDockerBuild :: "event list \<Rightarrow> string \<Rightarrow> string \<Rightarrow> string option"
  LoadPreset :: "event list \<Rightarrow> string \<Rightarrow> string + Preset"
  GenerateDockerconfig :: "Preset \<Rightarrow> string"
  GenerateKubeconfig :: "Preset \<Rightarrow> string"
  WriteDirFile :: "event list \<Rightarrow> string \<Rightarrow> string \<Rightarrow> string \<Rightarrow> bool \<Rightarrow> string + (string \<times> string)"
  WriteFile :: "event list \<Rightarrow> string \<Rightarrow> string \<Rightarrow> string \<Rightarrow> bool \<Rightarrow> string + string"
  ExecuteDockerTag :: "event list \<Rightarrow> string \<Rightarrow> string \<Rightarrow> string option"
  ExecuteDockerPush :: "event list \<Rightarrow> string \<Rightarrow> string \<Rightarrow> string option"
  ExecuteKubectlPatch :: "event list \<Rightarrow> string \<Rightarrow> string \<Rightarrow> string \<Rightarrow> string \<Rightarrow> string \<Rightarrow> string option"
  ExecuteDockerRemoveImage :: "event list \<Rightarrow> string \<Rightarrow> string option"

record state =
  trace :: "event list"
  usedImageNames :: "string list"

definition emit :: "call \<Rightarrow> bool \<Rightarrow> state \<Rightarrow> state" where
  "emit c ok s = s\<lparr>trace := trace s @ [(c, ok)]\<rparr>"

subsection \<open>Library functions\<close>

text \<open>
  \<^verbatim>\<open>strings.Split(s, sep)\<close> for a separator of one byte: the pieces of \<open>s\<close> between
  the separators, one more than there are separators (so the empty string gives one
  empty piece).
\<close>

fun Split :: "string \<Rightarrow> char \<Rightarrow> string list" where
  "Split [] sep = [[]]"
| "Split (c # cs) sep =
     (if c = sep then [] # Split cs sep
      else (case Split cs sep of [] \<Rightarrow> [[c]] | p # ps \<Rightarrow> (c # p) # ps))"

text \<open>\<^verbatim>\<open>fmt.Sprintf("%d", i)\<close>: the decimal digits, after a minus sign when negative.\<close>

fun digits :: "nat \<Rightarrow> string" where
  "digits n =
     (if n < 10 then [''0123456789'' ! n]
      else digits (n div 10) @ [''0123456789'' ! (n mod 10)])"

declare digits.simps [simp del]

definition Sprintf_d :: "int \<Rightarrow> string" where
  "Sprintf_d i = (if i < 0 then CHR ''-'' # digits (nat (- i)) else digits (nat i))"

text \<open>
  Modelled from the spec: the methods \<^verbatim>\<open>Primary\<close> and \<^verbatim>\<open>Derive\<close> of \<^verbatim>\<open>ImageNames\<close>,
  declared outside \<^verbatim>\<open>main.go\<close>. \<^verbatim>\<open>Primary\<close> is the first element (so says the comment
  at line 69 of \<^verbatim>\<open>main.go\<close> as well: the first tag is the primary tag); \<^verbatim>\<open>Derive\<close> puts
  the registry host and a slash before every name, in order; both fail on the empty
  list (\<open>None\<close>; \<^verbatim>\<open>main\<close> uses their results unchecked, so a failure is a panic).
\<close>

definition Primary :: "string list \<Rightarrow> string option" where
  "Primary names = (case names of [] \<Rightarrow> None | n # _ \<Rightarrow> Some n)"

definition Derive :: "string list \<Rightarrow> string \<Rightarrow> string list option" where
  "Derive names registry =
     (case names of [] \<Rightarrow> None | _ # _ \<Rightarrow> Some (map (\<lambda>n. registry @ ''/'' @ n) names))"

subsection \<open>The stages of main\<close>

text \<open>Lines 54 to 67: \<^verbatim>\<open>optImage\<close> and \<^verbatim>\<open>optEnv\<close> after the fallback to \<^verbatim>\<open>JOB_NAME\<close>.\<close>

definition resolve_job_name :: "string \<Rightarrow> string \<Rightarrow> string \<Rightarrow> error + (string \<times> string)" where
  "resolve_job_name img env jobName =
     (if img = [] \<or> env = [] then
        (case Split jobName CHR ''.'' of
           [a, b] \<Rightarrow> Inr (if img = [] then a else img, if env = [] then b else env)
         | _ \<Rightarrow> Inl MissingParameters)
      else Inr (img, env))"

text \<open>Lines 69 to 73: the tags; the first is the primary one.\<close>

definition image_names :: "string \<Rightarrow> string \<Rightarrow> string \<Rightarrow> string list" where
  "image_names img env buildNumber =
     (if buildNumber \<noteq> [] then [img @ '':'' @ env @ ''-build-'' @ buildNumber] else [])
     @ [img @ '':'' @ env]"

text \<open>Lines 176 to 187: the resources of a container.\<close>

definition container_resources :: "Preset \<Rightarrow> LimitOption \<Rightarrow> LimitOption \<Rightarrow> PatchResources" where
  "container_resources s cpu mem =
     (let r0 = \<lparr>Requests = \<lparr>CPU = RequestsCPU s, Memory = RequestsMEM s\<rparr>,
                Limits = \<lparr>CPU = LimitsCPU s, Memory = LimitsMEM s\<rparr>\<rparr>;
          r1 = (if \<not> IsZero cpu then
                  \<lparr>Requests = (Requests r0)\<lparr>CPU := Sprintf_d (Min_v cpu) @ ''m''\<rparr>,
                   Limits = (Limits r0)\<lparr>CPU := Sprintf_d (Max_v cpu) @ ''m''\<rparr>\<rparr>
                else r0);
          r2 = (if \<not> IsZero mem then
                  \<lparr>Requests = (Requests r1)\<lparr>Memory := Sprintf_d (Min_v mem) @ ''Mi''\<rparr>,
                   Limits = (Limits r1)\<lparr>Memory := Sprintf_d (Max_v mem) @ ''Mi''\<rparr>\<rparr>
                else r1)
      in r2)"

text \<open>
  Lines 157 to 189: the patch of one workload, from the time stamp, the preset, the
  workload and \<^verbatim>\<open>fullImageNames.Primary()\<close>.
\<close>

definition build_patch ::
  "(string \<Rightarrow> string) \<Rightarrow> string \<Rightarrow> Preset \<Rightarrow> Workload \<Rightarrow> string \<Rightarrow> LimitOption \<Rightarrow> LimitOption \<Rightarrow> Patch" where
  "build_patch trim now s workload img cpu mem =
     (let secrets = map (\<lambda>name. \<lparr>s_Name = trim name\<rparr>) (ImagePullSecrets s)
      in if IsInit workload then
           \<lparr>Timestamp = now, PatchImagePullSecrets = secrets,
            InitContainers =
              [\<lparr>i_Image = img, i_Name = Container workload, i_ImagePullPolicy = ''Always''\<rparr>],
            Containers = []\<rparr>
         else
           \<lparr>Timestamp = now, PatchImagePullSecrets = secrets,
            InitContainers = [],
            Containers =
              [\<lparr>c_Image = img, c_Name = Container workload, c_ImagePullPolicy = ''Always'',
                c_Resources = container_resources s cpu mem\<rparr>]\<rparr>)"

text \<open>Lines 132 to 144: tag and push every derived name.\<close>

fun push_images ::
  "'m collab \<Rightarrow> string list \<Rightarrow> string \<Rightarrow> string list \<Rightarrow> state \<Rightarrow> state \<times> error option" where
  "push_images c imageNames dcDir [] s = (s, None)"
| "push_images c imageNames dcDir (fullImageName # rest) s =
     (case Primary imageNames of
        None \<Rightarrow> (s, Some GoPanic)
      | Some primary \<Rightarrow>
          (case ExecuteDockerTag c (trace s) primary fullImageName of
             Some e \<Rightarrow> (emit (CDockerTag primary fullImageName) False s, Some (Failed e))
           | None \<Rightarrow>
               (let s1 = emit (CDockerTag primary fullImageName) True s;
                    s2 = s1\<lparr>usedImageNames := usedImageNames s1 @ [fullImageName]\<rparr>
                in case ExecuteDockerPush c (trace s2) fullImageName dcDir of
                     Some e \<Rightarrow> (emit (CDockerPush fullImageName dcDir) False s2, Some (Failed e))
                   | None \<Rightarrow>
                       push_images c imageNames dcDir rest
                         (emit (CDockerPush fullImageName dcDir) True s2))))"

text \<open>Lines 150 to 198: the patch stage of one workload.\<close>

definition patch_workload ::
  "'m collab \<Rightarrow> options \<Rightarrow> Workload \<Rightarrow> Preset \<Rightarrow> string list \<Rightarrow> state \<Rightarrow> state \<times> error option" where
  "patch_workload c opts workload s fullImageNames st =
     (case WriteFile c (trace st) (GenerateKubeconfig c s) ''deployer-kubeconfig'' ''.yml'' False of
        Inl e \<Rightarrow>
          (emit (CWriteFile (GenerateKubeconfig c s) ''deployer-kubeconfig'' ''.yml'' False) False st,
           Some (Failed e))
      | Inr fileKubeconfig \<Rightarrow>
          (let st1 = emit (CWriteFile (GenerateKubeconfig c s) ''deployer-kubeconfig'' ''.yml'' False)
                       True st;
               now = NowRFC3339 c (trace st1)
           in case Primary fullImageNames of
                None \<Rightarrow> (st1, Some GoPanic)
              | Some img \<Rightarrow>
                  (case JsonMarshal c
                          (build_patch (TrimSpace c) now s workload img (optCPU opts) (optMEM opts)) of
                     Inl e \<Rightarrow> (st1, Some (Failed e))
                   | Inr buf \<Rightarrow>
                       (case ExecuteKubectlPatch c (trace st1) fileKubeconfig (Namespace workload)
                               (Namespace workload) (Type workload) buf of
                          Some e \<Rightarrow>
                            (emit (CKubectlPatch fileKubeconfig (Namespace workload)
                                     (Namespace workload) (Type workload) buf) False st1,
                             Some (Failed e))
                        | None \<Rightarrow>
                            (emit (CKubectlPatch fileKubeconfig (Namespace workload)
                                     (Namespace workload) (Type workload) buf) True st1,
                             None)))))"

text \<open>
  Lines 112 to 198: the body of the loop over the workloads. The result \<open>None\<close> is the
  end of the body or \<^verbatim>\<open>continue\<close>; an error is the \<^verbatim>\<open>return\<close> of \<^verbatim>\<open>main\<close>.
\<close>

definition deploy_workload ::
  "'m collab \<Rightarrow> options \<Rightarrow> string list \<Rightarrow> Workload \<Rightarrow> state \<Rightarrow> state \<times> error option" where
  "deploy_workload c opts imageNames workload st =
     (case LoadPreset c (trace st) (Cluster workload) of
        Inl e \<Rightarrow> (emit (CLoadPreset (Cluster workload)) False st, Some (Failed e))
      | Inr s \<Rightarrow>
          (let st1 = emit (CLoadPreset (Cluster workload)) True st
           in case Derive imageNames (Registry s) of
                None \<Rightarrow> (st1, Some GoPanic)
              | Some fullImageNames \<Rightarrow>
                  (case WriteDirFile c (trace st1) (GenerateDockerconfig c s)
                          ''deployer-dockerconfig'' ''config.json'' False of
                     Inl e \<Rightarrow>
                       (emit (CWriteDirFile (GenerateDockerconfig c s)
                                ''deployer-dockerconfig'' ''config.json'' False) False st1,
                        Some (Failed e))
                   | Inr (dcDir, dcFile) \<Rightarrow>
                       (case push_images c imageNames dcDir fullImageNames
                               (emit (CWriteDirFile (GenerateDockerconfig c s)
                                        ''deployer-dockerconfig'' ''config.json'' False) True st1) of
                          (st2, Some e) \<Rightarrow> (st2, Some e)
                        | (st2, None) \<Rightarrow>
                            if optSkipDeploy opts then (st2, None)
                            else patch_workload c opts workload s fullImageNames st2))))"

text \<open>Lines 111 to 199: the loop over the workloads, in order, left at the first error.\<close>

fun deploy_all ::
  "'m collab \<Rightarrow> options \<Rightarrow> string list \<Rightarrow> Workload list \<Rightarrow> state \<Rightarrow> state \<times> error option" where
  "deploy_all c opts imageNames [] st = (st, None)"
| "deploy_all c opts imageNames (workload # rest) st =
     (case deploy_workload c opts imageNames workload st of
        (st1, Some e) \<Rightarrow> (st1, Some e)
      | (st1, None) \<Rightarrow> deploy_all c opts imageNames rest st1)"

text \<open>
  Lines 103 to 108: the deferred removal of the images, over the value
  \<^verbatim>\<open>usedImageNames\<close> has when \<^verbatim>\<open>main\<close> returns; the error of a removal is dropped.
\<close>

fun remove_images :: "'m collab \<Rightarrow> string list \<Rightarrow> state \<Rightarrow> state" where
  "remove_images c [] st = st"
| "remove_images c (imageName # rest) st =
     remove_images c rest
       (emit (CDockerRemoveImage imageName) (ExecuteDockerRemoveImage c (trace st) imageName = None) st)"

text \<open>
  Lines 75 to 199, from the manifest on. The third component tells whether the
  removal of the images had been deferred (line 103) when \<^verbatim>\<open>main\<close> returned.
\<close>

definition pipeline ::
  "'m collab \<Rightarrow> options \<Rightarrow> string \<Rightarrow> string list \<Rightarrow> state \<Rightarrow> state \<times> error option \<times> bool" where
  "pipeline c opts env imageNames st =
     (case LoadManifestFile c (trace st) (optManifest opts) of
        Inl e \<Rightarrow> (emit (CLoadManifestFile (optManifest opts)) False st, Some (Failed e), False)
      | Inr m \<Rightarrow>
          (let st1 = emit (CLoadManifestFile (optManifest opts)) True st
           in case GenerateFiles c (trace st1) m env of
                Inl e \<Rightarrow> (emit (CGenerateFiles env) False st1, Some (Failed e), False)
              | Inr (fileBuild, filePackage) \<Rightarrow>
                  (let st2 = emit (CGenerateFiles env) True st1
                   in case Execute c (trace st2) fileBuild of
                        Some e \<Rightarrow> (emit (CExecute fileBuild) False st2, Some (Failed e), False)
                      | None \<Rightarrow>
                          (let st3 = emit (CExecute fileBuild) True st2
                           in case Primary imageNames of
                                None \<Rightarrow> (st3, Some GoPanic, False)
                              | Some primary \<Rightarrow>
                                  (case ExecuteDockerBuild c (trace st3) filePackage primary of
                                     Some e \<Rightarrow>
                                       (emit (CDockerBuild filePackage primary) False st3,
                                        Some (Failed e), False)
                                   | None \<Rightarrow>
                                       (let st4 = emit (CDockerBuild filePackage primary) True st3;
                                            st5 = st4\<lparr>usedImageNames := usedImageNames st4 @ [primary]\<rparr>
                                        in case deploy_all c opts imageNames (optWorkloads opts) st5 of
                                             (st6, r) \<Rightarrow> (st6, r, True)))))))"

text \<open>
  \<^verbatim>\<open>exit\<close> (lines 15 to 22), the last deferred function: status 1 when \<^verbatim>\<open>err\<close> is set,
  else the normal end of the process; a panic ends it with status 2.
\<close>

definition exit_code :: "error option \<Rightarrow> nat" where
  "exit_code err = (case err of None \<Rightarrow> 0 | Some GoPanic \<Rightarrow> 2 | Some _ \<Rightarrow> 1)"

record run =
  r_trace :: "event list"
  r_err :: "error option"
  r_exit :: nat
  r_used :: "string list"

text \<open>
  The deferred functions run last in, first out: the removal of the images (when
  deferred), \<^verbatim>\<open>tempfile.DeleteAll\<close>, \<^verbatim>\<open>exit\<close>.
\<close>

definition finish :: "'m collab \<Rightarrow> state \<times> error option \<times> bool \<Rightarrow> run" where
  "finish c res =
     (case res of (st, err, deferred) \<Rightarrow>
        (let st1 = (if deferred then remove_images c (usedImageNames st) st else st);
             st2 = emit CTempDeleteAll True st1
         in \<lparr>r_trace = trace st2, r_err = err, r_exit = exit_code err,
             r_used = usedImageNames st2\<rparr>))"

definition main :: "'m collab \<Rightarrow> options \<Rightarrow> run" where
  "main c opts =
     (let st0 = \<lparr>trace = [], usedImageNames = []\<rparr>
      in case resolve_job_name (optImage opts) (optEnv opts) (Getenv c ''JOB_NAME'') of
           Inl e \<Rightarrow> finish c (st0, Some e, False)
         | Inr (img, env) \<Rightarrow>
             finish c (pipeline c opts env
                         (image_names img env (Getenv c ''BUILD_NUMBER'')) st0))"

subsection \<open>Reading a trace\<close>

text \<open>
  The calls that clean up: the removal of an image and \<^verbatim>\<open>tempfile.DeleteAll\<close>. Every
  other call is a stage of the pipeline.
\<close>

fun is_cleanup :: "call \<Rightarrow> bool" where
  "is_cleanup (CDockerRemoveImage n) = True"
| "is_cleanup CTempDeleteAll = True"
| "is_cleanup _ = False"

fun is_patch :: "call \<Rightarrow> bool" where
  "is_patch (CKubectlPatch k ns n t p) = True"
| "is_patch _ = False"

text \<open>
  The calls the loop over the workloads makes; with \<^verbatim>\<open>--skip-deploy\<close> the kubeconfig
  is not written and nothing is patched.
\<close>

fun is_deploy_call :: "bool \<Rightarrow> call \<Rightarrow> bool" where
  "is_deploy_call skip (CLoadPreset cluster) = True"
| "is_deploy_call skip (CWriteDirFile content d f b) = True"
| "is_deploy_call skip (CDockerTag p full) = True"
| "is_deploy_call skip (CDockerPush full d) = True"
| "is_deploy_call skip (CWriteFile content d f b) = (\<not> skip)"
| "is_deploy_call skip (CKubectlPatch k ns n t p) = (\<not> skip)"
| "is_deploy_call skip _ = False"

text \<open>The clusters \<^verbatim>\<open>LoadPreset\<close> was called with, in order.\<close>

fun preset_load :: "event \<Rightarrow> string list" where
  "preset_load (CLoadPreset cluster, ok) = [cluster]"
| "preset_load _ = []"

definition preset_loads :: "event list \<Rightarrow> string list" where
  "preset_loads t = concat (map preset_load t)"

text \<open>The targets of the calls of \<^verbatim>\<open>ExecuteDockerTag\<close>: all of them, and those that succeeded.\<close>

fun tag_call :: "event \<Rightarrow> string list" where
  "tag_call (CDockerTag p full, ok) = [full]"
| "tag_call _ = []"

definition tag_calls :: "event list \<Rightarrow> string list" where
  "tag_calls t = concat (map tag_call t)"

definition tagged :: "event list \<Rightarrow> string list" where
  "tagged t = tag_calls (filter snd t)"

text \<open>The names \<^verbatim>\<open>ExecuteDockerPush\<close> was called with: all of them, and those pushed.\<close>

fun push_call :: "event \<Rightarrow> string list" where
  "push_call (CDockerPush full d, ok) = [full]"
| "push_call _ = []"

definition push_calls :: "event list \<Rightarrow> string list" where
  "push_calls t = concat (map push_call t)"

definition pushed :: "event list \<Rightarrow> string list" where
  "pushed t = push_calls (filter snd t)"

text \<open>The names \<^verbatim>\<open>ExecuteDockerRemoveImage\<close> was called with, in order.\<close>

fun removal :: "event \<Rightarrow> string list" where
  "removal (CDockerRemoveImage n, ok) = [n]"
| "removal _ = []"

definition removals :: "event list \<Rightarrow> string list" where
  "removals t = concat (map removal t)"

subsection \<open>Sample collaborators\<close>

text \<open>
  A cluster's preset, collaborators that succeed except for the tags and pushes
  listed, a workload and options, to run the pipeline on concrete inputs.
\<close>

definition demo_preset :: "string \<Rightarrow> Preset" where
  "demo_preset cluster =
     \<lparr>Registry = ''reg-'' @ cluster, ImagePullSecrets = ['' regcred''],
      RequestsCPU = ''100m'', RequestsMEM = ''256Mi'',
      LimitsCPU = ''200m'', LimitsMEM = ''512Mi''\<rparr>"

definition demo_collab :: "string \<Rightarrow> string \<Rightarrow> string list \<Rightarrow> string list \<Rightarrow> unit collab" where
  "demo_collab jobName buildNumber failTag failPush =
     \<lparr>Getenv = (\<lambda>k. if k = ''JOB_NAME'' then jobName
                     else if k = ''BUILD_NUMBER'' then buildNumber else []),
      TrimSpace = filter (\<lambda>ch. ch \<noteq> CHR '' ''),
      JsonMarshal = (\<lambda>p. Inr (''{'' @ Timestamp p @ ''}'')),
      NowRFC3339 = (\<lambda>h. ''T'' @ digits (length h)),
      LoadManifestFile = (\<lambda>h f. Inr ()),
      GenerateFiles = (\<lambda>h m env. Inr (''build.sh'', ''Dockerfile'')),
      Execute = (\<lambda>h f. None),
      ExecuteDockerBuild = (\<lambda>h f t. None),
      LoadPreset = (\<lambda>h cluster. Inr (demo_preset cluster)),
      GenerateDockerconfig = (\<lambda>s. ''dc''),
      GenerateKubeconfig = (\<lambda>s. ''kc''),
      WriteDirFile = (\<lambda>h content d f b. Inr (''/tmp/dc'', ''/tmp/dc/config.json'')),
      WriteFile = (\<lambda>h content d f b. Inr ''/tmp/kc.yml''),
      ExecuteDockerTag = (\<lambda>h p full. if full \<in> set failTag then Some ''tag failed'' else None),
      ExecuteDockerPush = (\<lambda>h full d. if full \<in> set failPush then Some ''push failed'' else None),
      ExecuteKubectlPatch = (\<lambda>h k ns n t p. None),
      ExecuteDockerRemoveImage = (\<lambda>h n. None)\<rparr>"

definition demo_workload :: "string \<Rightarrow> string \<Rightarrow> bool \<Rightarrow> Workload" where
  "demo_workload cluster name init =
     \<lparr>Cluster = cluster, Namespace = ''ns'', Type = ''deployment'', Name = name,
      Container = ''main'', IsInit = init\<rparr>"

definition demo_options :: "string \<Rightarrow> string \<Rightarrow> Workload list \<Rightarrow> bool \<Rightarrow> options" where
  "demo_options img env ws skip =
     \<lparr>optManifest = ''deployer.yml'', optImage = img, optEnv = env, optWorkloads = ws,
      optCPU = \<lparr>Min_v = 0, Max_v = 0\<rparr>, optMEM = \<lparr>Min_v = 0, Max_v = 0\<rparr>,
      optSkipDeploy = skip\<rparr>"

section \<open>Properties\<close>

lemmas run_defs = main_def finish_def pipeline_def deploy_workload_def patch_workload_def
  demo_collab_def demo_options_def demo_workload_def demo_preset_def emit_def
  resolve_job_name_def image_names_def Primary_def Derive_def exit_code_def build_patch_def
  container_resources_def IsZero_def

lemmas trace_defs = preset_loads_def tag_calls_def tagged_def push_calls_def pushed_def
  removals_def

subsection \<open>The state after a call\<close>

lemma trace_emit [simp]: "trace (emit x ok s) = trace s @ [(x, ok)]"
  by (simp add: emit_def)

lemma used_emit [simp]: "usedImageNames (emit x ok s) = usedImageNames s"
  by (simp add: emit_def)

subsection \<open>push_images\<close>

lemma push_images_kind:
  "push_images c names d fulls s = (s', r) \<Longrightarrow>
   \<exists>new. trace s' = trace s @ new \<and> (\<forall>e\<in>set new. is_deploy_call skip (fst e))"
proof (induction fulls arbitrary: s)
  case Nil
  then show ?case by simp
next
  case (Cons full rest)
  show ?case
  proof (cases "Primary names")
    case None
    with Cons.prems show ?thesis by simp
  next
    case (Some primary)
    show ?thesis
    proof (cases "ExecuteDockerTag c (trace s) primary full")
      case (Some e)
      with Cons.prems \<open>Primary names = Some primary\<close> show ?thesis by auto
    next
      case None
      note tag = this
      let ?s2 = "(emit (CDockerTag primary full) True s)
                   \<lparr>usedImageNames := usedImageNames (emit (CDockerTag primary full) True s) @ [full]\<rparr>"
      show ?thesis
      proof (cases "ExecuteDockerPush c (trace ?s2) full d")
        case (Some e)
        with Cons.prems tag \<open>Primary names = Some primary\<close> show ?thesis
          by (auto simp: Let_def)
      next
        case None
        with Cons.prems tag \<open>Primary names = Some primary\<close>
        have "push_images c names d rest (emit (CDockerPush full d) True ?s2) = (s', r)"
          by (simp add: Let_def)
        from Cons.IH [OF this] show ?thesis by auto
      qed
    qed
  qed
qed



lemma push_images_Cons_cases:
  assumes "push_images c names d (full # rest) s = (s', r)"
  obtains (panic) "Primary names = None" "s' = s" "r = Some GoPanic"
  | (tag_failed) primary e where "Primary names = Some primary"
      "ExecuteDockerTag c (trace s) primary full = Some e"
      "s' = emit (CDockerTag primary full) False s" "r = Some (Failed e)"
  | (push_failed) primary e where "Primary names = Some primary"
      "ExecuteDockerTag c (trace s) primary full = None"
      "s' = emit (CDockerPush full d) False
              ((emit (CDockerTag primary full) True s)\<lparr>usedImageNames := usedImageNames s @ [full]\<rparr>)"
      "r = Some (Failed e)"
  | (pushed) primary where "Primary names = Some primary"
      "ExecuteDockerTag c (trace s) primary full = None"
      "push_images c names d rest
         (emit (CDockerPush full d) True
            ((emit (CDockerTag primary full) True s)\<lparr>usedImageNames := usedImageNames s @ [full]\<rparr>))
       = (s', r)"
  using assms by (auto simp: Let_def split: option.splits)

lemma push_images_ok:
  "push_images c names d fulls s = (s', r) \<Longrightarrow> \<forall>e\<in>set (trace s). snd e \<Longrightarrow>
   (\<forall>e\<in>set (butlast (trace s')). snd e) \<and> (r = None \<longrightarrow> (\<forall>e\<in>set (trace s'). snd e))"
proof (induction fulls arbitrary: s)
  case Nil
  then show ?case by (auto dest: in_set_butlastD)
next
  case (Cons full rest)
  from Cons.prems(1) show ?case
  proof (cases rule: push_images_Cons_cases)
    case panic
    with Cons.prems(2) show ?thesis by (auto dest: in_set_butlastD)
  next
    case (tag_failed primary e)
    with Cons.prems(2) show ?thesis by simp
  next
    case (push_failed primary e)
    with Cons.prems(2) show ?thesis by (simp add: butlast_append)
  next
    case (pushed primary)
    from Cons.IH [OF pushed(3)] Cons.prems(2) show ?thesis by simp
  qed
qed


lemma push_images_used:
  "push_images c names d fulls s = (s', r) \<Longrightarrow> usedImageNames s = u @ tagged (trace s) \<Longrightarrow>
   usedImageNames s' = u @ tagged (trace s')"
proof (induction fulls arbitrary: s)
  case Nil
  then show ?case by simp
next
  case (Cons full rest)
  from Cons.prems(1) show ?case
  proof (cases rule: push_images_Cons_cases)
    case panic
    with Cons.prems(2) show ?thesis by simp
  next
    case (tag_failed primary e)
    with Cons.prems(2) show ?thesis by (simp add: trace_defs)
  next
    case (push_failed primary e)
    with Cons.prems(2) show ?thesis by (simp add: trace_defs)
  next
    case (pushed primary)
    show ?thesis
      by (rule Cons.IH [OF pushed(3)]) (simp add: trace_defs Cons.prems(2))
  qed
qed

lemma push_images_push_after_tag:
  "push_images c names d fulls s = (s', r) \<Longrightarrow>
   set (push_calls (trace s)) \<subseteq> set (tagged (trace s)) \<Longrightarrow>
   set (push_calls (trace s')) \<subseteq> set (tagged (trace s'))"
proof (induction fulls arbitrary: s)
  case Nil
  then show ?case by simp
next
  case (Cons full rest)
  from Cons.prems(1) show ?case
  proof (cases rule: push_images_Cons_cases)
    case panic
    with Cons.prems(2) show ?thesis by simp
  next
    case (tag_failed primary e)
    with Cons.prems(2) show ?thesis by (simp add: trace_defs)
  next
    case (push_failed primary e)
    with Cons.prems(2) show ?thesis by (auto simp add: trace_defs)
  next
    case (pushed primary)
    show ?thesis
      by (rule Cons.IH [OF pushed(3)]) (use Cons.prems(2) in \<open>auto simp add: trace_defs\<close>)
  qed
qed

lemma push_images_done:
  "push_images c names d fulls s = (s', None) \<Longrightarrow>
   tagged (trace s') = tagged (trace s) @ fulls \<and> pushed (trace s') = pushed (trace s) @ fulls"
proof (induction fulls arbitrary: s)
  case Nil
  then show ?case by simp
next
  case (Cons full rest)
  from Cons.prems(1) show ?case
  proof (cases rule: push_images_Cons_cases)
    case (pushed primary)
    from Cons.IH [OF pushed(3)] show ?thesis by (simp add: trace_defs)
  qed simp_all
qed

lemma push_images_err:
  "push_images c names d fulls s = (s', r) \<Longrightarrow> r \<noteq> Some MissingParameters"
proof (induction fulls arbitrary: s)
  case Nil
  then show ?case by auto
next
  case (Cons full rest)
  from Cons.prems(1) show ?case
  proof (cases rule: push_images_Cons_cases)
    case (pushed primary)
    from Cons.IH [OF pushed(3)] show ?thesis .
  qed simp_all
qed

lemma Primary_nonempty: "names \<noteq> [] \<Longrightarrow> Primary names \<noteq> None"
  by (cases names) (simp_all add: Primary_def)

lemma push_images_no_panic:
  "push_images c names d fulls s = (s', r) \<Longrightarrow> names \<noteq> [] \<Longrightarrow> r \<noteq> Some GoPanic"
proof (induction fulls arbitrary: s)
  case Nil
  then show ?case by auto
next
  case (Cons full rest)
  from Cons.prems(1) show ?case
  proof (cases rule: push_images_Cons_cases)
    case panic
    with Primary_nonempty [OF Cons.prems(2)] show ?thesis by simp
  next
    case (pushed primary)
    from Cons.IH [OF pushed(3) Cons.prems(2)] show ?thesis .
  qed simp_all
qed


lemma push_images_loads:
  "push_images c names d fulls s = (s', r) \<Longrightarrow> preset_loads (trace s') = preset_loads (trace s)"
proof (induction fulls arbitrary: s)
  case Nil
  then show ?case by simp
next
  case (Cons full rest)
  from Cons.prems(1) show ?case
  proof (cases rule: push_images_Cons_cases)
    case (pushed primary)
    from Cons.IH [OF pushed(3)] show ?thesis by (simp add: trace_defs)
  qed (simp_all add: trace_defs)
qed

subsection \<open>patch_workload\<close>

lemma patch_workload_cases:
  assumes "patch_workload c opts w p fulls st = (st', r)"
  obtains (kubeconfig_failed) e where
      "st' = emit (CWriteFile (GenerateKubeconfig c p) ''deployer-kubeconfig'' ''.yml'' False) False st"
      "r = Some (Failed e)"
  | (not_sent) "st' = emit (CWriteFile (GenerateKubeconfig c p) ''deployer-kubeconfig'' ''.yml'' False) True st"
      "r = Some GoPanic \<and> Primary fulls = None \<or> (\<exists>e. r = Some (Failed e))"
  | (sent) f img buf where
      "Primary fulls = Some img"
      "JsonMarshal c (build_patch (TrimSpace c)
         (NowRFC3339 c (trace st @
            [(CWriteFile (GenerateKubeconfig c p) ''deployer-kubeconfig'' ''.yml'' False, True)]))
         p w img (optCPU opts) (optMEM opts)) = Inr buf"
      "st' = emit (CKubectlPatch f (Namespace w) (Namespace w) (Type w) buf) (r = None)
               (emit (CWriteFile (GenerateKubeconfig c p) ''deployer-kubeconfig'' ''.yml'' False) True st)"
      "r = None \<or> (\<exists>e. r = Some (Failed e))"
  using assms unfolding patch_workload_def
  by (auto simp: Let_def split: sum.splits option.splits)

lemma patch_workload_kind:
  assumes "patch_workload c opts w p fulls st = (st', r)"
  shows "\<exists>new. trace st' = trace st @ new \<and> (\<forall>e\<in>set new. is_deploy_call False (fst e))"
  using assms by (cases rule: patch_workload_cases) auto

lemma patch_workload_ok:
  assumes "patch_workload c opts w p fulls st = (st', r)" and "\<forall>e\<in>set (trace st). snd e"
  shows "(\<forall>e\<in>set (butlast (trace st')). snd e) \<and> (r = None \<longrightarrow> (\<forall>e\<in>set (trace st'). snd e))"
  using assms by (cases rule: patch_workload_cases) (auto simp: butlast_append)

lemma patch_workload_same:
  assumes "patch_workload c opts w p fulls st = (st', r)"
  shows "usedImageNames st' = usedImageNames st \<and> tagged (trace st') = tagged (trace st)
    \<and> pushed (trace st') = pushed (trace st) \<and> push_calls (trace st') = push_calls (trace st)
    \<and> preset_loads (trace st') = preset_loads (trace st)"
  using assms by (cases rule: patch_workload_cases) (auto simp: trace_defs)

lemma patch_workload_err:
  assumes "patch_workload c opts w p fulls st = (st', r)"
  shows "r \<noteq> Some MissingParameters"
  using assms by (cases rule: patch_workload_cases) auto

lemma patch_workload_no_panic:
  assumes "patch_workload c opts w p fulls st = (st', r)" and "fulls \<noteq> []"
  shows "r \<noteq> Some GoPanic"
  using assms(1) Primary_nonempty [OF assms(2)] by (cases rule: patch_workload_cases) auto


subsection \<open>deploy_workload\<close>

lemma Derive_Some:
  "Derive names registry = Some fulls \<Longrightarrow>
   names \<noteq> [] \<and> fulls = map (\<lambda>n. registry @ ''/'' @ n) names"
  by (cases names) (simp_all add: Derive_def)

lemma Derive_nonempty: "names \<noteq> [] \<Longrightarrow> Derive names registry \<noteq> None"
  by (cases names) (simp_all add: Derive_def)

lemma deploy_workload_cases:
  assumes "deploy_workload c opts names w st = (st', r)"
  obtains (preset_failed) e where
      "st' = emit (CLoadPreset (Cluster w)) False st" "r = Some (Failed e)"
  | (panic) p :: Preset where "Derive names (Registry p) = None"
      "st' = emit (CLoadPreset (Cluster w)) True st" "r = Some GoPanic"
  | (dockerconfig_failed) p e where
      "st' = emit (CWriteDirFile (GenerateDockerconfig c p) ''deployer-dockerconfig''
                     ''config.json'' False) False
               (emit (CLoadPreset (Cluster w)) True st)"
      "r = Some (Failed e)"
  | (push_stopped) p fulls dcDir e where
      "Derive names (Registry p) = Some fulls"
      "push_images c names dcDir fulls
         (emit (CWriteDirFile (GenerateDockerconfig c p) ''deployer-dockerconfig''
                  ''config.json'' False) True
            (emit (CLoadPreset (Cluster w)) True st)) = (st', Some e)"
      "r = Some e"
  | (skipped) p fulls dcDir where
      "Derive names (Registry p) = Some fulls"
      "push_images c names dcDir fulls
         (emit (CWriteDirFile (GenerateDockerconfig c p) ''deployer-dockerconfig''
                  ''config.json'' False) True
            (emit (CLoadPreset (Cluster w)) True st)) = (st', None)"
      "optSkipDeploy opts" "r = None"
  | (deployed) p fulls dcDir st2 where
      "Derive names (Registry p) = Some fulls"
      "push_images c names dcDir fulls
         (emit (CWriteDirFile (GenerateDockerconfig c p) ''deployer-dockerconfig''
                  ''config.json'' False) True
            (emit (CLoadPreset (Cluster w)) True st)) = (st2, None)"
      "\<not> optSkipDeploy opts"
      "patch_workload c opts w p fulls st2 = (st', r)"
  using assms unfolding deploy_workload_def
  by (auto simp: Let_def split: sum.splits option.splits prod.splits if_splits)


lemma deploy_workload_kind:
  assumes "deploy_workload c opts names w st = (st', r)"
  shows "\<exists>new. trace st' = trace st @ new
           \<and> (\<forall>e\<in>set new. is_deploy_call (optSkipDeploy opts) (fst e))"
  using assms
proof (cases rule: deploy_workload_cases)
  case (push_stopped p fulls dcDir e)
  from push_images_kind [OF push_stopped(2), of "optSkipDeploy opts"] show ?thesis by auto
next
  case (skipped p fulls dcDir)
  from push_images_kind [OF skipped(2), of "optSkipDeploy opts"] show ?thesis by auto
next
  case (deployed p fulls dcDir st2)
  from push_images_kind [OF deployed(2), of False] patch_workload_kind [OF deployed(4)] deployed(3)
  show ?thesis by auto
qed auto

lemma deploy_workload_ok:
  assumes "deploy_workload c opts names w st = (st', r)" and "\<forall>e\<in>set (trace st). snd e"
  shows "(\<forall>e\<in>set (butlast (trace st')). snd e) \<and> (r = None \<longrightarrow> (\<forall>e\<in>set (trace st'). snd e))"
  using assms(1)
proof (cases rule: deploy_workload_cases)
  case (push_stopped p fulls dcDir e)
  from push_images_ok [OF push_stopped(2)] assms(2) push_stopped(3) show ?thesis by simp
next
  case (skipped p fulls dcDir)
  from push_images_ok [OF skipped(2)] assms(2) show ?thesis by simp
next
  case (deployed p fulls dcDir st2)
  from push_images_ok [OF deployed(2)] assms(2) have "\<forall>e\<in>set (trace st2). snd e" by simp
  from patch_workload_ok [OF deployed(4) this] show ?thesis .
qed (use assms(2) in \<open>auto simp: butlast_append\<close>)

lemma deploy_workload_used:
  assumes "deploy_workload c opts names w st = (st', r)"
    and "usedImageNames st = u @ tagged (trace st)"
  shows "usedImageNames st' = u @ tagged (trace st')"
  using assms(1)
proof (cases rule: deploy_workload_cases)
  case (push_stopped p fulls dcDir e)
  show ?thesis by (rule push_images_used [OF push_stopped(2)]) (simp add: assms(2) trace_defs)
next
  case (skipped p fulls dcDir)
  show ?thesis by (rule push_images_used [OF skipped(2)]) (simp add: assms(2) trace_defs)
next
  case (deployed p fulls dcDir st2)
  have "usedImageNames st2 = u @ tagged (trace st2)"
    by (rule push_images_used [OF deployed(2)]) (simp add: assms(2) trace_defs)
  with patch_workload_same [OF deployed(4)] show ?thesis by simp
qed (simp_all add: assms(2) trace_defs)

lemma deploy_workload_push_after_tag:
  assumes "deploy_workload c opts names w st = (st', r)"
    and "set (push_calls (trace st)) \<subseteq> set (tagged (trace st))"
  shows "set (push_calls (trace st')) \<subseteq> set (tagged (trace st'))"
  using assms(1)
proof (cases rule: deploy_workload_cases)
  case (push_stopped p fulls dcDir e)
  show ?thesis by (rule push_images_push_after_tag [OF push_stopped(2)]) (use assms(2) in \<open>simp add: trace_defs\<close>)
next
  case (skipped p fulls dcDir)
  show ?thesis by (rule push_images_push_after_tag [OF skipped(2)]) (use assms(2) in \<open>simp add: trace_defs\<close>)
next
  case (deployed p fulls dcDir st2)
  have "set (push_calls (trace st2)) \<subseteq> set (tagged (trace st2))"
    by (rule push_images_push_after_tag [OF deployed(2)]) (use assms(2) in \<open>simp add: trace_defs\<close>)
  with patch_workload_same [OF deployed(4)] show ?thesis by simp
qed (use assms(2) in \<open>simp_all add: trace_defs\<close>)

lemma deploy_workload_loads:
  assumes "deploy_workload c opts names w st = (st', r)"
  shows "preset_loads (trace st') = preset_loads (trace st) @ [Cluster w]"
  using assms
proof (cases rule: deploy_workload_cases)
  case (push_stopped p fulls dcDir e)
  from push_images_loads [OF push_stopped(2)] show ?thesis by (simp add: trace_defs)
next
  case (skipped p fulls dcDir)
  from push_images_loads [OF skipped(2)] show ?thesis by (simp add: trace_defs)
next
  case (deployed p fulls dcDir st2)
  from push_images_loads [OF deployed(2)] patch_workload_same [OF deployed(4)]
  show ?thesis by (simp add: trace_defs)
qed (simp_all add: trace_defs)

lemma deploy_workload_err:
  assumes "deploy_workload c opts names w st = (st', r)"
  shows "r \<noteq> Some MissingParameters"
  using assms
proof (cases rule: deploy_workload_cases)
  case (push_stopped p fulls dcDir e)
  from push_images_err [OF push_stopped(2)] push_stopped(3) show ?thesis by simp
next
  case (deployed p fulls dcDir st2)
  from patch_workload_err [OF deployed(4)] show ?thesis .
qed simp_all

lemma deploy_workload_no_panic:
  assumes "deploy_workload c opts names w st = (st', r)" and "names \<noteq> []"
  shows "r \<noteq> Some GoPanic"
  using assms(1)
proof (cases rule: deploy_workload_cases)
  case (panic p)
  with Derive_nonempty [OF assms(2), of "Registry p"] show ?thesis by simp
next
  case (push_stopped p fulls dcDir e)
  from push_images_no_panic [OF push_stopped(2) assms(2)] push_stopped(3) show ?thesis by simp
next
  case (deployed p fulls dcDir st2)
  from Derive_Some [OF deployed(1)] assms(2) have "fulls \<noteq> []" by simp
  from patch_workload_no_panic [OF deployed(4) this] show ?thesis .
qed simp_all

subsection \<open>deploy_all\<close>

lemma deploy_all_Cons_cases:
  assumes "deploy_all c opts names (w # ws) st = (st', r)"
  obtains (stopped) e where "deploy_workload c opts names w st = (st', Some e)" "r = Some e"
  | (continued) st1 where "deploy_workload c opts names w st = (st1, None)"
      "deploy_all c opts names ws st1 = (st', r)"
  using assms by (auto split: prod.splits option.splits)

lemma deploy_all_kind:
  "deploy_all c opts names ws st = (st', r) \<Longrightarrow>
   \<exists>new. trace st' = trace st @ new \<and> (\<forall>e\<in>set new. is_deploy_call (optSkipDeploy opts) (fst e))"
proof (induction ws arbitrary: st)
  case Nil
  then show ?case by simp
next
  case (Cons w ws)
  from Cons.prems show ?case
  proof (cases rule: deploy_all_Cons_cases)
    case (stopped e)
    from deploy_workload_kind [OF stopped(1)] show ?thesis .
  next
    case (continued st1)
    from deploy_workload_kind [OF continued(1)] Cons.IH [OF continued(2)]
    show ?thesis by auto
  qed
qed

lemma deploy_all_ok:
  "deploy_all c opts names ws st = (st', r) \<Longrightarrow> \<forall>e\<in>set (trace st). snd e \<Longrightarrow>
   (\<forall>e\<in>set (butlast (trace st')). snd e) \<and> (r = None \<longrightarrow> (\<forall>e\<in>set (trace st'). snd e))"
proof (induction ws arbitrary: st)
  case Nil
  then show ?case by (auto dest: in_set_butlastD)
next
  case (Cons w ws)
  from Cons.prems(1) show ?case
  proof (cases rule: deploy_all_Cons_cases)
    case (stopped e)
    from deploy_workload_ok [OF stopped(1) Cons.prems(2)] stopped(2) show ?thesis by simp
  next
    case (continued st1)
    from deploy_workload_ok [OF continued(1) Cons.prems(2)]
    have "\<forall>e\<in>set (trace st1). snd e" by simp
    from Cons.IH [OF continued(2) this] show ?thesis .
  qed
qed

lemma deploy_all_used:
  "deploy_all c opts names ws st = (st', r) \<Longrightarrow> usedImageNames st = u @ tagged (trace st) \<Longrightarrow>
   usedImageNames st' = u @ tagged (trace st')"
proof (induction ws arbitrary: st)
  case Nil
  then show ?case by simp
next
  case (Cons w ws)
  from Cons.prems(1) show ?case
  proof (cases rule: deploy_all_Cons_cases)
    case (stopped e)
    from deploy_workload_used [OF stopped(1) Cons.prems(2)] show ?thesis .
  next
    case (continued st1)
    from Cons.IH [OF continued(2) deploy_workload_used [OF continued(1) Cons.prems(2)]]
    show ?thesis .
  qed
qed

lemma deploy_all_push_after_tag:
  "deploy_all c opts names ws st = (st', r) \<Longrightarrow>
   set (push_calls (trace st)) \<subseteq> set (tagged (trace st)) \<Longrightarrow>
   set (push_calls (trace st')) \<subseteq> set (tagged (trace st'))"
proof (induction ws arbitrary: st)
  case Nil
  then show ?case by simp
next
  case (Cons w ws)
  from Cons.prems(1) show ?case
  proof (cases rule: deploy_all_Cons_cases)
    case (stopped e)
    from deploy_workload_push_after_tag [OF stopped(1) Cons.prems(2)] show ?thesis .
  next
    case (continued st1)
    from Cons.IH [OF continued(2) deploy_workload_push_after_tag [OF continued(1) Cons.prems(2)]]
    show ?thesis .
  qed
qed

lemma deploy_all_loads:
  "deploy_all c opts names ws st = (st', r) \<Longrightarrow>
   (\<exists>k\<le>length ws. preset_loads (trace st') = preset_loads (trace st) @ map Cluster (take k ws))
   \<and> (r = None \<longrightarrow> preset_loads (trace st') = preset_loads (trace st) @ map Cluster ws)"
proof (induction ws arbitrary: st)
  case Nil
  then show ?case by simp
next
  case (Cons w ws)
  from Cons.prems(1) show ?case
  proof (cases rule: deploy_all_Cons_cases)
    case (stopped e)
    from deploy_workload_loads [OF stopped(1)]
    have "preset_loads (trace st') = preset_loads (trace st) @ map Cluster (take 1 (w # ws))"
      by simp
    moreover have "(1::nat) \<le> length (w # ws)" by simp
    ultimately show ?thesis using stopped(2) by blast
  next
    case (continued st1)
    from Cons.IH [OF continued(2)] obtain k where k: "k \<le> length ws"
      "preset_loads (trace st') = preset_loads (trace st1) @ map Cluster (take k ws)"
      and full: "r = None \<longrightarrow> preset_loads (trace st') = preset_loads (trace st1) @ map Cluster ws"
      by blast
    from k deploy_workload_loads [OF continued(1)]
    have "preset_loads (trace st') = preset_loads (trace st) @ map Cluster (take (Suc k) (w # ws))"
      by simp
    moreover have "Suc k \<le> length (w # ws)" using k(1) by simp
    moreover from full deploy_workload_loads [OF continued(1)]
    have "r = None \<longrightarrow> preset_loads (trace st') = preset_loads (trace st) @ map Cluster (w # ws)"
      by simp
    ultimately show ?thesis by blast
  qed
qed

lemma deploy_all_err:
  "deploy_all c opts names ws st = (st', r) \<Longrightarrow> r \<noteq> Some MissingParameters"
proof (induction ws arbitrary: st)
  case Nil
  then show ?case by auto
next
  case (Cons w ws)
  from Cons.prems(1) show ?case
  proof (cases rule: deploy_all_Cons_cases)
    case (stopped e)
    from deploy_workload_err [OF stopped(1)] stopped(2) show ?thesis by simp
  next
    case (continued st1)
    from Cons.IH [OF continued(2)] show ?thesis .
  qed
qed

lemma deploy_all_no_panic:
  "deploy_all c opts names ws st = (st', r) \<Longrightarrow> names \<noteq> [] \<Longrightarrow> r \<noteq> Some GoPanic"
proof (induction ws arbitrary: st)
  case Nil
  then show ?case by auto
next
  case (Cons w ws)
  from Cons.prems(1) show ?case
  proof (cases rule: deploy_all_Cons_cases)
    case (stopped e)
    from deploy_workload_no_panic [OF stopped(1) Cons.prems(2)] stopped(2) show ?thesis by simp
  next
    case (continued st1)
    from Cons.IH [OF continued(2) Cons.prems(2)] show ?thesis .
  qed
qed

subsection \<open>remove_images, pipeline, finish\<close>

lemma remove_images_trace:
  "\<exists>oks. length oks = length ns
     \<and> trace (remove_images c ns st) = trace st @ zip (map CDockerRemoveImage ns) oks"
proof (induction ns arbitrary: st)
  case Nil
  then show ?case by simp
next
  case (Cons n ns)
  let ?ok = "ExecuteDockerRemoveImage c (trace st) n = None"
  from Cons.IH [of "emit (CDockerRemoveImage n) ?ok st"]
  obtain oks where "length oks = length ns"
    "trace (remove_images c ns (emit (CDockerRemoveImage n) ?ok st))
       = trace (emit (CDockerRemoveImage n) ?ok st) @ zip (map CDockerRemoveImage ns) oks"
    by blast
  then have "length (?ok # oks) = length (n # ns)
     \<and> trace (remove_images c (n # ns) st) = trace st @ zip (map CDockerRemoveImage (n # ns)) (?ok # oks)"
    by simp
  then show ?case by blast
qed

lemma remove_images_used: "usedImageNames (remove_images c ns st) = usedImageNames st"
  by (induction ns arbitrary: st) simp_all

text \<open>The ways the pipeline ends.\<close>

lemma pipeline_cases:
  assumes "pipeline c opts env names st = (st', r, deferred)"
  obtains (manifest_failed) e where
      "st' = emit (CLoadManifestFile (optManifest opts)) False st"
      "r = Some (Failed e)" "\<not> deferred"
  | (files_failed) e where
      "st' = emit (CGenerateFiles env) False (emit (CLoadManifestFile (optManifest opts)) True st)"
      "r = Some (Failed e)" "\<not> deferred"
  | (build_failed) fileBuild e where
      "st' = emit (CExecute fileBuild) False
               (emit (CGenerateFiles env) True (emit (CLoadManifestFile (optManifest opts)) True st))"
      "r = Some (Failed e)" "\<not> deferred"
  | (panic) fileBuild where "Primary names = None"
      "st' = emit (CExecute fileBuild) True
               (emit (CGenerateFiles env) True (emit (CLoadManifestFile (optManifest opts)) True st))"
      "r = Some GoPanic" "\<not> deferred"
  | (package_failed) fileBuild filePackage primary e where "Primary names = Some primary"
      "st' = emit (CDockerBuild filePackage primary) False
               (emit (CExecute fileBuild) True
                  (emit (CGenerateFiles env) True
                     (emit (CLoadManifestFile (optManifest opts)) True st)))"
      "r = Some (Failed e)" "\<not> deferred"
  | (packaged) fileBuild filePackage primary where "Primary names = Some primary"
      "deploy_all c opts names (optWorkloads opts)
         ((emit (CDockerBuild filePackage primary) True
            (emit (CExecute fileBuild) True
               (emit (CGenerateFiles env) True
                  (emit (CLoadManifestFile (optManifest opts)) True st))))
          \<lparr>usedImageNames := usedImageNames st @ [primary]\<rparr>) = (st', r)"
      "deferred"
  using assms unfolding pipeline_def
  by (auto simp: Let_def split: sum.splits option.splits prod.splits)


lemma is_deploy_call_stage: "is_deploy_call skip x \<Longrightarrow> \<not> is_cleanup x"
  by (cases x) simp_all

lemma is_deploy_call_skip: "is_deploy_call True x \<Longrightarrow> \<not> is_patch x"
  by (cases x) simp_all

lemma is_deploy_call_build: "is_deploy_call skip x \<Longrightarrow> x \<noteq> CDockerBuild f p"
  by (cases x) simp_all

lemma pipeline_ok:
  assumes "pipeline c opts env names st = (st', r, deferred)" and "trace st = []"
  shows "(\<forall>e\<in>set (butlast (trace st')). snd e) \<and> (r = None \<longrightarrow> (\<forall>e\<in>set (trace st'). snd e))"
  using assms(1)
proof (cases rule: pipeline_cases)
  case (packaged fileBuild filePackage primary)
  show ?thesis
    by (rule deploy_all_ok [OF packaged(2)]) (simp add: assms(2))
qed (simp_all add: assms(2) butlast_append)

lemma pipeline_stage_calls:
  assumes "pipeline c opts env names st = (st', r, deferred)" and "trace st = []"
  shows "\<forall>e\<in>set (trace st'). \<not> is_cleanup (fst e)"
  using assms(1)
proof (cases rule: pipeline_cases)
  case (packaged fileBuild filePackage primary)
  from deploy_all_kind [OF packaged(2)]
  show ?thesis by (fastforce simp: assms(2) dest: is_deploy_call_stage)
qed (simp_all add: assms(2))

lemma pipeline_skip:
  assumes "pipeline c opts env names st = (st', r, deferred)" and "trace st = []"
    and "optSkipDeploy opts"
  shows "\<forall>e\<in>set (trace st'). \<not> is_patch (fst e)"
  using assms(1)
proof (cases rule: pipeline_cases)
  case (packaged fileBuild filePackage primary)
  from deploy_all_kind [OF packaged(2)] assms(3)
  show ?thesis by (fastforce simp: assms(2) dest: is_deploy_call_skip)
qed (simp_all add: assms(2))

lemma pipeline_packaged:
  assumes "pipeline c opts env names st = (st', r, deferred)" and "trace st = []"
  shows "(deferred \<longleftrightarrow> (\<exists>f p. (CDockerBuild f p, True) \<in> set (trace st')))
       \<and> (\<forall>f p ok. (CDockerBuild f p, ok) \<in> set (trace st') \<longrightarrow> Primary names = Some p)"
  using assms(1)
proof (cases rule: pipeline_cases)
  case (packaged fileBuild filePackage primary)
  from deploy_all_kind [OF packaged(2)] obtain new where
    new: "trace st' = [(CLoadManifestFile (optManifest opts), True), (CGenerateFiles env, True),
            (CExecute fileBuild, True), (CDockerBuild filePackage primary, True)] @ new"
      "\<forall>e\<in>set new. is_deploy_call (optSkipDeploy opts) (fst e)"
    by (auto simp: assms(2))
  have "\<And>f p ok. (CDockerBuild f p, ok) \<notin> set new"
    using new(2) is_deploy_call_build by fastforce
  with new(1) packaged(1,3) show ?thesis by auto
qed (auto simp add: assms(2))

lemma pipeline_used:
  assumes "pipeline c opts env names st = (st', r, deferred)" and "trace st = []"
    and "usedImageNames st = []"
  shows "if deferred then \<exists>primary. Primary names = Some primary
                             \<and> usedImageNames st' = primary # tagged (trace st')
         else usedImageNames st' = [] \<and> tagged (trace st') = []"
  using assms(1)
proof (cases rule: pipeline_cases)
  case (packaged fileBuild filePackage primary)
  have "usedImageNames st' = [primary] @ tagged (trace st')"
    by (rule deploy_all_used [OF packaged(2)]) (simp add: assms(2,3) trace_defs)
  with packaged(1,3) show ?thesis by simp
qed (simp_all add: assms(2,3) trace_defs)

lemma pipeline_push_after_tag:
  assumes "pipeline c opts env names st = (st', r, deferred)" and "trace st = []"
  shows "set (push_calls (trace st')) \<subseteq> set (tagged (trace st'))"
  using assms(1)
proof (cases rule: pipeline_cases)
  case (packaged fileBuild filePackage primary)
  show ?thesis
    by (rule deploy_all_push_after_tag [OF packaged(2)]) (simp add: assms(2) trace_defs)
qed (simp_all add: assms(2) trace_defs)

lemma pipeline_loads:
  assumes "pipeline c opts env names st = (st', r, deferred)" and "trace st = []"
  shows "(\<exists>k\<le>length (optWorkloads opts).
            preset_loads (trace st') = map Cluster (take k (optWorkloads opts)))
       \<and> (r = None \<longrightarrow> preset_loads (trace st') = map Cluster (optWorkloads opts))"
  using assms(1)
proof (cases rule: pipeline_cases)
  case (packaged fileBuild filePackage primary)
  from deploy_all_loads [OF packaged(2)] show ?thesis by (simp add: assms(2) trace_defs)
qed (auto simp add: assms(2) trace_defs intro: exI [of _ 0])

lemma pipeline_err:
  assumes "pipeline c opts env names st = (st', r, deferred)"
  shows "r \<noteq> Some MissingParameters"
  using assms
proof (cases rule: pipeline_cases)
  case (packaged fileBuild filePackage primary)
  from deploy_all_err [OF packaged(2)] show ?thesis .
qed simp_all

lemma pipeline_no_panic:
  assumes "pipeline c opts env names st = (st', r, deferred)" and "names \<noteq> []"
  shows "r \<noteq> Some GoPanic"
  using assms(1)
proof (cases rule: pipeline_cases)
  case (panic fileBuild)
  with Primary_nonempty [OF assms(2)] show ?thesis by simp
next
  case (packaged fileBuild filePackage primary)
  from deploy_all_no_panic [OF packaged(2) assms(2)] show ?thesis .
qed simp_all

subsection \<open>main\<close>

lemma cleanup_projections:
  "\<forall>e\<in>set t. is_cleanup (fst e) \<Longrightarrow>
   preset_loads t = [] \<and> tag_calls t = [] \<and> tagged t = [] \<and> push_calls t = [] \<and> pushed t = []"
proof (induction t)
  case Nil
  then show ?case by (simp add: trace_defs)
next
  case (Cons e t)
  obtain x ok where e: "e = (x, ok)" by (cases e)
  with Cons.prems have "is_cleanup x" by simp
  then have "preset_load e = [] \<and> tag_call e = [] \<and> push_call e = []"
    unfolding e by (cases x) simp_all
  with Cons show ?case by (simp add: trace_defs)
qed

lemma stage_removals: "\<forall>e\<in>set t. \<not> is_cleanup (fst e) \<Longrightarrow> removals t = []"
proof (induction t)
  case Nil
  then show ?case by (simp add: trace_defs)
next
  case (Cons e t)
  obtain x ok where e: "e = (x, ok)" by (cases e)
  with Cons.prems have "\<not> is_cleanup x" by simp
  then have "removal e = []" unfolding e by (cases x) simp_all
  with Cons show ?case by (simp add: trace_defs)
qed

lemma removals_zip:
  "length oks = length ns \<Longrightarrow> removals (zip (map CDockerRemoveImage ns) oks) = ns"
  by (induction ns oks rule: list_induct2') (simp_all add: trace_defs)

lemma cleanup_zip: "\<forall>e\<in>set (zip (map CDockerRemoveImage ns) oks). is_cleanup (fst e)"
  by (auto dest!: set_zip_leftD)

text \<open>
  What the deferred functions add to the trace of the pipeline: the removal of
  every name in \<^verbatim>\<open>usedImageNames\<close> when it had been deferred, then
  \<^verbatim>\<open>tempfile.DeleteAll\<close>.
\<close>

lemma finish_run:
  "\<exists>oks. length oks = length (usedImageNames st)
     \<and> r_trace (finish c (st, r, deferred)) =
         trace st @ (if deferred then zip (map CDockerRemoveImage (usedImageNames st)) oks else [])
           @ [(CTempDeleteAll, True)]
     \<and> r_err (finish c (st, r, deferred)) = r
     \<and> r_exit (finish c (st, r, deferred)) = exit_code r
     \<and> r_used (finish c (st, r, deferred)) = usedImageNames st"
proof (cases deferred)
  case True
  from remove_images_trace [of "usedImageNames st" c st] obtain oks where
    "length oks = length (usedImageNames st)"
    "trace (remove_images c (usedImageNames st) st)
       = trace st @ zip (map CDockerRemoveImage (usedImageNames st)) oks"
    by blast
  with True show ?thesis
    by (auto simp: finish_def Let_def remove_images_used)
next
  case False
  then show ?thesis
    by (auto simp: finish_def Let_def intro: Ex_list_of_length)
qed

lemma main_cases:
  obtains (missing) "optImage opts = [] \<or> optEnv opts = []"
      "length (Split (Getenv c ''JOB_NAME'') CHR ''.'') \<noteq> 2"
      "main c opts = finish c (\<lparr>trace = [], usedImageNames = []\<rparr>, Some MissingParameters, False)"
  | (ran) img env st r deferred where
      "resolve_job_name (optImage opts) (optEnv opts) (Getenv c ''JOB_NAME'') = Inr (img, env)"
      "pipeline c opts env (image_names img env (Getenv c ''BUILD_NUMBER''))
         \<lparr>trace = [], usedImageNames = []\<rparr> = (st, r, deferred)"
      "main c opts = finish c (st, r, deferred)"
proof (cases "resolve_job_name (optImage opts) (optEnv opts) (Getenv c ''JOB_NAME'')")
  case (Inl e)
  then have "e = MissingParameters"
    and "optImage opts = [] \<or> optEnv opts = []"
    and "length (Split (Getenv c ''JOB_NAME'') CHR ''.'') \<noteq> 2"
    by (auto simp: resolve_job_name_def split: if_splits list.splits)
  with Inl missing show ?thesis by (simp add: main_def)
next
  case (Inr p)
  obtain img env where p: "p = (img, env)" by (cases p)
  obtain st r deferred where
    "pipeline c opts env (image_names img env (Getenv c ''BUILD_NUMBER''))
       \<lparr>trace = [], usedImageNames = []\<rparr> = (st, r, deferred)"
    by (metis prod_cases3)
  with Inr p ran show ?thesis by (simp add: main_def)
qed

lemma image_names_nonempty: "image_names img env b \<noteq> []"
  by (simp add: image_names_def)

lemma finish_fields:
  "r_err (finish c (st, r, deferred)) = r"
  "r_exit (finish c (st, r, deferred)) = exit_code r"
  "r_used (finish c (st, r, deferred)) = usedImageNames st"
  by (simp_all add: finish_def Let_def remove_images_used)

lemma finish_cleanup:
  obtains cl where "r_trace (finish c (st, r, deferred)) = trace st @ cl"
    and "\<forall>e\<in>set cl. is_cleanup (fst e)"
    and "map fst cl =
           (if deferred then map CDockerRemoveImage (usedImageNames st) else []) @ [CTempDeleteAll]"
    and "removals cl = (if deferred then usedImageNames st else [])"
proof -
  from finish_run [of st c r deferred] obtain oks where
    oks: "length oks = length (usedImageNames st)"
      "r_trace (finish c (st, r, deferred)) = trace st
        @ (if deferred then zip (map CDockerRemoveImage (usedImageNames st)) oks else [])
        @ [(CTempDeleteAll, True)]"
    by blast
  let ?cl = "(if deferred then zip (map CDockerRemoveImage (usedImageNames st)) oks else [])
        @ [(CTempDeleteAll, True)]"
  have "\<forall>e\<in>set ?cl. is_cleanup (fst e)"
    using cleanup_zip [of "usedImageNames st" oks] by simp
  moreover have "map fst ?cl =
      (if deferred then map CDockerRemoveImage (usedImageNames st) else []) @ [CTempDeleteAll]"
    using oks(1) by simp
  moreover have "removals ?cl = (if deferred then usedImageNames st else [])"
    using removals_zip [OF oks(1)] by (simp add: removals_def)
  ultimately show ?thesis using oks(2) that by blast
qed

lemma exit_code_failed: "r \<noteq> None \<Longrightarrow> r \<noteq> Some GoPanic \<Longrightarrow> exit_code r = 1"
  by (cases r) (auto simp: exit_code_def split: error.splits)

text \<open>
  A failed stage call is the last stage call: where a trace is the calls of the stages,
  of which none but the last has failed, followed by clean-up calls, a failed call that
  is not a clean-up call ends the stages.
\<close>

lemma failure_is_last:
  assumes eq: "body @ cl = pre @ (x, False) # post"
    and ok: "\<forall>e\<in>set (butlast body). snd e"
    and cl: "\<forall>e\<in>set cl. is_cleanup (fst e)"
    and x: "\<not> is_cleanup x"
  shows "body = pre @ [(x, False)] \<and> post = cl"
proof -
  from eq have "body @ cl = (pre @ [(x, False)]) @ post" by simp
  then obtain us where us: "body = (pre @ [(x, False)]) @ us \<and> us @ cl = post
      \<or> body @ us = pre @ [(x, False)] \<and> cl = us @ post"
    unfolding append_eq_append_conv2 by blast
  then show ?thesis
  proof
    assume a: "body = (pre @ [(x, False)]) @ us \<and> us @ cl = post"
    have "us = []"
    proof (rule ccontr)
      assume "us \<noteq> []"
      with a have "(x, False) \<in> set (butlast body)" by (simp add: butlast_append)
      with ok show False by auto
    qed
    with a show ?thesis by simp
  next
    assume b: "body @ us = pre @ [(x, False)] \<and> cl = us @ post"
    have "us = []"
    proof (rule ccontr)
      assume "us \<noteq> []"
      then have "last (body @ us) = last us" by simp
      with b have "last us = (x, False)" by simp
      with \<open>us \<noteq> []\<close> have "(x, False) \<in> set us" by (metis last_in_set)
      with b cl have "is_cleanup (fst (x, False))" by (metis Un_iff set_append)
      with x show False by simp
    qed
    with b show ?thesis by simp
  qed
qed

lemma deploy_workload_pushed:
  assumes "deploy_workload c opts names w st = (st', None)"
  shows "\<exists>reg. tagged (trace st') = tagged (trace st) @ map (\<lambda>n. reg @ ''/'' @ n) names
             \<and> pushed (trace st') = pushed (trace st) @ map (\<lambda>n. reg @ ''/'' @ n) names"
  using assms
proof (cases rule: deploy_workload_cases)
  case (skipped p fulls dcDir)
  from push_images_done [OF skipped(2)] Derive_Some [OF skipped(1)]
  have "tagged (trace st') = tagged (trace st) @ map (\<lambda>n. Registry p @ ''/'' @ n) names
      \<and> pushed (trace st') = pushed (trace st) @ map (\<lambda>n. Registry p @ ''/'' @ n) names"
    by (simp add: trace_defs)
  then show ?thesis by blast
next
  case (deployed p fulls dcDir st2)
  from push_images_done [OF deployed(2)] Derive_Some [OF deployed(1)]
    patch_workload_same [OF deployed(4)]
  have "tagged (trace st') = tagged (trace st) @ map (\<lambda>n. Registry p @ ''/'' @ n) names
      \<and> pushed (trace st') = pushed (trace st) @ map (\<lambda>n. Registry p @ ''/'' @ n) names"
    by (simp add: trace_defs)
  then show ?thesis by blast
qed simp_all

lemma deploy_all_pushed:
  "deploy_all c opts names ws st = (st', None) \<Longrightarrow>
   \<exists>regs. length regs = length ws
     \<and> tagged (trace st') =
         tagged (trace st) @ concat (map (\<lambda>reg. map (\<lambda>n. reg @ ''/'' @ n) names) regs)
     \<and> pushed (trace st') =
         pushed (trace st) @ concat (map (\<lambda>reg. map (\<lambda>n. reg @ ''/'' @ n) names) regs)"
proof (induction ws arbitrary: st)
  case Nil
  then show ?case by simp
next
  case (Cons w ws)
  from Cons.prems(1) show ?case
  proof (cases rule: deploy_all_Cons_cases)
    case (continued st1)
    from deploy_workload_pushed [OF continued(1)] obtain reg where
      reg: "tagged (trace st1) = tagged (trace st) @ map (\<lambda>n. reg @ ''/'' @ n) names"
        "pushed (trace st1) = pushed (trace st) @ map (\<lambda>n. reg @ ''/'' @ n) names"
      by blast
    from Cons.IH [OF continued(2)] obtain regs where
      regs: "length regs = length ws"
        "tagged (trace st') =
           tagged (trace st1) @ concat (map (\<lambda>reg. map (\<lambda>n. reg @ ''/'' @ n) names) regs)"
        "pushed (trace st') =
           pushed (trace st1) @ concat (map (\<lambda>reg. map (\<lambda>n. reg @ ''/'' @ n) names) regs)"
      by blast
    from reg regs have "length (reg # regs) = length (w # ws)
      \<and> tagged (trace st') = tagged (trace st)
           @ concat (map (\<lambda>reg. map (\<lambda>n. reg @ ''/'' @ n) names) (reg # regs))
      \<and> pushed (trace st') = pushed (trace st)
           @ concat (map (\<lambda>reg. map (\<lambda>n. reg @ ''/'' @ n) names) (reg # regs))"
      by simp
    then show ?thesis by blast
  qed simp
qed

lemma pipeline_pushed:
  assumes "pipeline c opts env names st = (st', None, deferred)" and "trace st = []"
  shows "\<exists>regs. length regs = length (optWorkloads opts)
     \<and> tagged (trace st') = concat (map (\<lambda>reg. map (\<lambda>n. reg @ ''/'' @ n) names) regs)
     \<and> pushed (trace st') = concat (map (\<lambda>reg. map (\<lambda>n. reg @ ''/'' @ n) names) regs)"
  using assms(1)
proof (cases rule: pipeline_cases)
  case (packaged fileBuild filePackage primary)
  from deploy_all_pushed [OF packaged(2)] show ?thesis by (simp add: assms(2) trace_defs)
qed simp_all

lemma projections_before_cleanup:
  assumes "\<forall>e\<in>set cl. is_cleanup (fst e)"
  shows "preset_loads (body @ cl) = preset_loads body" "tagged (body @ cl) = tagged body"
    "pushed (body @ cl) = pushed body" "push_calls (body @ cl) = push_calls body"
  using cleanup_projections [OF assms] by (simp_all add: trace_defs)

section \<open>The claims\<close>

text \<open>
  C5. When \<^verbatim>\<open>--image\<close> or \<^verbatim>\<open>--env\<close> is absent and \<^verbatim>\<open>JOB_NAME\<close> does not split on
  the dot into exactly two parts, the run fails with the missing-parameters error before
  any stage of the pipeline: no collaborator is called but \<^verbatim>\<open>tempfile.DeleteAll\<close>, and
  the process exits with status 1.
\<close>

theorem missing_parameters_exit:
  assumes "optImage opts = [] \<or> optEnv opts = []"
    and "length (Split (Getenv c ''JOB_NAME'') CHR ''.'') \<noteq> 2"
  shows "main c opts =
           \<lparr>r_trace = [(CTempDeleteAll, True)], r_err = Some MissingParameters,
            r_exit = 1, r_used = []\<rparr>"
proof -
  have "resolve_job_name (optImage opts) (optEnv opts) (Getenv c ''JOB_NAME'')
          = Inl MissingParameters"
    using assms by (auto simp: resolve_job_name_def split: list.splits)
  then show ?thesis
    by (simp add: main_def finish_def emit_def exit_code_def)
qed

theorem missing_parameters_exit_witness:
  "(optImage (demo_options ''svc'' [] [demo_workload ''c1'' ''web'' False] False) = []
      \<or> optEnv (demo_options ''svc'' [] [demo_workload ''c1'' ''web'' False] False) = [])
   \<and> length (Split (Getenv (demo_collab ''app-prod'' [] [] []) ''JOB_NAME'') CHR ''.'') \<noteq> 2
   \<and> main (demo_collab ''app-prod'' [] [] [])
        (demo_options ''svc'' [] [demo_workload ''c1'' ''web'' False] False) =
       \<lparr>r_trace = [(CTempDeleteAll, True)], r_err = Some MissingParameters,
        r_exit = 1, r_used = []\<rparr>"
  using missing_parameters_exit
    [of "demo_options ''svc'' [] [demo_workload ''c1'' ''web'' False] False"
        "demo_collab ''app-prod'' [] [] []"]
  by (simp add: demo_collab_def demo_options_def)

text \<open>
  C3. The list of image names is the build-numbered tag followed by the plain tag when
  \<^verbatim>\<open>BUILD_NUMBER\<close> is set and not empty, and the plain tag alone otherwise; the primary
  tag is the first element. \<^verbatim>\<open>main\<close> calls \<open>image_names\<close> with the value of
  \<^verbatim>\<open>os.Getenv("BUILD_NUMBER")\<close>, which is empty when the variable is absent.
\<close>

theorem image_names_tags:
  "image_names img env b =
     (if b \<noteq> [] then [img @ '':'' @ env @ ''-build-'' @ b, img @ '':'' @ env]
      else [img @ '':'' @ env])
   \<and> Primary (image_names img env b) =
       Some (if b \<noteq> [] then img @ '':'' @ env @ ''-build-'' @ b else img @ '':'' @ env)"
  by (simp add: image_names_def Primary_def)

theorem image_names_tags_witness:
  "image_names ''svc'' ''prod'' ''42'' = [''svc:prod-build-42'', ''svc:prod'']
   \<and> Primary (image_names ''svc'' ''prod'' ''42'') = Some ''svc:prod-build-42''
   \<and> image_names ''svc'' ''prod'' [] = [''svc:prod'']
   \<and> Primary (image_names ''svc'' ''prod'' []) = Some ''svc:prod''"
  using image_names_tags [of "''svc''" "''prod''" "''42''"]
    image_names_tags [of "''svc''" "''prod''" "[]"]
  by (simp add: Primary_def)

text \<open>
  C10. When \<^verbatim>\<open>JOB_NAME\<close> splits on the dot into exactly two parts, a flag that was given
  keeps its value and only a missing one is taken from the matching part: the pipeline
  runs with these values. The run fails with the missing-parameters error exactly when a
  value is missing and \<^verbatim>\<open>JOB_NAME\<close> does not split into two parts.
\<close>

theorem job_name_fallback:
  "(Split (Getenv c ''JOB_NAME'') CHR ''.'' = [a, b] \<longrightarrow>
      resolve_job_name (optImage opts) (optEnv opts) (Getenv c ''JOB_NAME'') =
        Inr (if optImage opts = [] then a else optImage opts,
             if optEnv opts = [] then b else optEnv opts)
      \<and> main c opts =
          finish c (pipeline c opts (if optEnv opts = [] then b else optEnv opts)
            (image_names (if optImage opts = [] then a else optImage opts)
               (if optEnv opts = [] then b else optEnv opts) (Getenv c ''BUILD_NUMBER''))
            \<lparr>trace = [], usedImageNames = []\<rparr>))
   \<and> (r_err (main c opts) = Some MissingParameters \<longleftrightarrow>
        (optImage opts = [] \<or> optEnv opts = [])
        \<and> length (Split (Getenv c ''JOB_NAME'') CHR ''.'') \<noteq> 2)"
proof (intro conjI impI)
  assume split: "Split (Getenv c ''JOB_NAME'') CHR ''.'' = [a, b]"
  then show res: "resolve_job_name (optImage opts) (optEnv opts) (Getenv c ''JOB_NAME'') =
        Inr (if optImage opts = [] then a else optImage opts,
             if optEnv opts = [] then b else optEnv opts)"
    by (simp add: resolve_job_name_def)
  then show "main c opts =
          finish c (pipeline c opts (if optEnv opts = [] then b else optEnv opts)
            (image_names (if optImage opts = [] then a else optImage opts)
               (if optEnv opts = [] then b else optEnv opts) (Getenv c ''BUILD_NUMBER''))
            \<lparr>trace = [], usedImageNames = []\<rparr>)"
    by (simp add: main_def)
next
  show "r_err (main c opts) = Some MissingParameters \<longleftrightarrow>
        (optImage opts = [] \<or> optEnv opts = [])
        \<and> length (Split (Getenv c ''JOB_NAME'') CHR ''.'') \<noteq> 2"
  proof (cases rule: main_cases [of opts c])
    case missing
    then show ?thesis by (simp add: finish_def Let_def)
  next
    case (ran img env st r deferred)
    from ran(1) have "\<not> ((optImage opts = [] \<or> optEnv opts = [])
        \<and> length (Split (Getenv c ''JOB_NAME'') CHR ''.'') \<noteq> 2)"
      by (auto simp: resolve_job_name_def split: if_splits list.splits)
    moreover from finish_run [of st c r deferred] pipeline_err [OF ran(2)] ran(3)
    have "r_err (main c opts) \<noteq> Some MissingParameters" by auto
    ultimately show ?thesis by simp
  qed
qed

theorem job_name_fallback_witness:
  "Split (Getenv (demo_collab ''app.prod'' [] [] []) ''JOB_NAME'') CHR ''.'' = [''app'', ''prod'']
   \<and> resolve_job_name (optImage (demo_options ''svc'' [] [] False))
         (optEnv (demo_options ''svc'' [] [] False))
         (Getenv (demo_collab ''app.prod'' [] [] []) ''JOB_NAME'') = Inr (''svc'', ''prod'')
   \<and> r_err (main (demo_collab ''app.prod'' [] [] []) (demo_options ''svc'' [] [] False))
       \<noteq> Some MissingParameters
   \<and> r_err (main (demo_collab ''app'' [] [] []) (demo_options ''svc'' [] [] False))
       = Some MissingParameters"
proof -
  let ?c = "demo_collab ''app.prod'' [] [] []"
  let ?c' = "demo_collab ''app'' [] [] []"
  let ?o = "demo_options ''svc'' [] [] False"
  have two: "Split (Getenv ?c ''JOB_NAME'') CHR ''.'' = [''app'', ''prod'']"
    by (simp add: demo_collab_def)
  have one: "Split (Getenv ?c' ''JOB_NAME'') CHR ''.'' = [''app'']"
    by (simp add: demo_collab_def)
  have flags: "optImage ?o = ''svc''" "optEnv ?o = []"
    by (simp_all add: demo_options_def)
  note given = job_name_fallback [of ?c "''app''" "''prod''" ?o]
  from given [THEN conjunct1, rule_format, OF two, THEN conjunct1] flags
  have "resolve_job_name (optImage ?o) (optEnv ?o) (Getenv ?c ''JOB_NAME'') = Inr (''svc'', ''prod'')"
    by simp
  moreover from given [THEN conjunct2] two
  have "r_err (main ?c ?o) \<noteq> Some MissingParameters"
    by simp
  moreover from job_name_fallback [of ?c' "''app''" "''prod''" ?o, THEN conjunct2] one flags
  have "r_err (main ?c' ?o) = Some MissingParameters"
    by simp
  ultimately show ?thesis using two by simp
qed

text \<open>
  C2. In the patch of a container that is not an init container, CPU and memory are
  decided independently: an override that is not zero sets the request to its minimum
  and the limit to its maximum, with the suffix \<^verbatim>\<open>m\<close> for CPU and \<^verbatim>\<open>Mi\<close> for memory;
  a zero override leaves the request and the limit of the preset.
\<close>

theorem resource_override_precedence:
  assumes "\<not> IsInit w"
  shows "\<exists>k. Containers (build_patch trim now s w img cpu mem) = [k]
    \<and> CPU (Requests (c_Resources k)) =
        (if IsZero cpu then RequestsCPU s else Sprintf_d (Min_v cpu) @ ''m'')
    \<and> CPU (Limits (c_Resources k)) =
        (if IsZero cpu then LimitsCPU s else Sprintf_d (Max_v cpu) @ ''m'')
    \<and> Memory (Requests (c_Resources k)) =
        (if IsZero mem then RequestsMEM s else Sprintf_d (Min_v mem) @ ''Mi'')
    \<and> Memory (Limits (c_Resources k)) =
        (if IsZero mem then LimitsMEM s else Sprintf_d (Max_v mem) @ ''Mi'')"
  using assms by (simp add: build_patch_def container_resources_def Let_def)

theorem resource_override_precedence_witness:
  "\<not> IsInit (demo_workload ''c1'' ''web'' False)
   \<and> map c_Resources
        (Containers (build_patch id ''t'' (demo_preset ''c1'') (demo_workload ''c1'' ''web'' False)
           ''reg-c1/app:prod'' \<lparr>Min_v = 50, Max_v = 150\<rparr> \<lparr>Min_v = 0, Max_v = 0\<rparr>))
       = [\<lparr>Requests = \<lparr>CPU = ''50m'', Memory = ''256Mi''\<rparr>,
           Limits = \<lparr>CPU = ''150m'', Memory = ''512Mi''\<rparr>\<rparr>]"
proof -
  let ?w = "demo_workload ''c1'' ''web'' False"
  have init: "\<not> IsInit ?w" by (simp add: demo_workload_def)
  have fmt: "Sprintf_d 50 = ''50''" "Sprintf_d 150 = ''150''"
    by (simp_all add: Sprintf_d_def digits.simps)
  from resource_override_precedence [OF init, of id "''t''" "demo_preset ''c1''"
      "''reg-c1/app:prod''" "\<lparr>Min_v = 50, Max_v = 150\<rparr>" "\<lparr>Min_v = 0, Max_v = 0\<rparr>"]
  obtain k where k: "Containers (build_patch id ''t'' (demo_preset ''c1'') ?w
      ''reg-c1/app:prod'' \<lparr>Min_v = 50, Max_v = 150\<rparr> \<lparr>Min_v = 0, Max_v = 0\<rparr>) = [k]"
    "CPU (Requests (c_Resources k)) = ''50m''" "CPU (Limits (c_Resources k)) = ''150m''"
    "Memory (Requests (c_Resources k)) = ''256Mi''" "Memory (Limits (c_Resources k)) = ''512Mi''"
    by (auto simp: IsZero_def fmt demo_preset_def)
  from k(2-5) have "c_Resources k = \<lparr>Requests = \<lparr>CPU = ''50m'', Memory = ''256Mi''\<rparr>,
           Limits = \<lparr>CPU = ''150m'', Memory = ''512Mi''\<rparr>\<rparr>"
    by (cases "c_Resources k", cases "Requests (c_Resources k)", cases "Limits (c_Resources k)") simp
  with k(1) init show ?thesis by simp
qed

text \<open>
  C4. The patch of a workload holds exactly one entry: for an init container an entry
  of \<open>InitContainers\<close> with the image, the container's name and the pull policy
  \<^verbatim>\<open>Always\<close> (the entry has no field for resources), and no container; otherwise an
  entry of \<open>Containers\<close> with the same three fields and the resources, and no init
  container. The image is the primary one of the derived names: the patch stage
  sends the patch built with \<^verbatim>\<open>fullImageNames.Primary()\<close>.
\<close>

theorem patch_single_entry:
  "(IsInit w \<longrightarrow>
      InitContainers (build_patch trim now s w img cpu mem) =
        [\<lparr>i_Image = img, i_Name = Container w, i_ImagePullPolicy = ''Always''\<rparr>]
      \<and> Containers (build_patch trim now s w img cpu mem) = [])
   \<and> (\<not> IsInit w \<longrightarrow>
      Containers (build_patch trim now s w img cpu mem) =
        [\<lparr>c_Image = img, c_Name = Container w, c_ImagePullPolicy = ''Always'',
          c_Resources = container_resources s cpu mem\<rparr>]
      \<and> InitContainers (build_patch trim now s w img cpu mem) = [])
   \<and> (patch_workload c opts w s fulls st = (st', None) \<longrightarrow>
        (\<exists>primary t f buf. Primary fulls = Some primary
           \<and> JsonMarshal c (build_patch (TrimSpace c) t s w primary (optCPU opts) (optMEM opts))
               = Inr buf
           \<and> last (trace st') = (CKubectlPatch f (Namespace w) (Namespace w) (Type w) buf, True)))"
proof (intro conjI impI)
  assume "patch_workload c opts w s fulls st = (st', None)"
  then show "\<exists>primary t f buf. Primary fulls = Some primary
           \<and> JsonMarshal c (build_patch (TrimSpace c) t s w primary (optCPU opts) (optMEM opts))
               = Inr buf
           \<and> last (trace st') = (CKubectlPatch f (Namespace w) (Namespace w) (Type w) buf, True)"
  proof (cases rule: patch_workload_cases)
    case (sent f primary buf)
    from sent(3) have "last (trace st') =
        (CKubectlPatch f (Namespace w) (Namespace w) (Type w) buf, True)" by simp
    with sent(1,2) show ?thesis by blast
  qed simp_all
qed (simp_all add: build_patch_def)


theorem patch_single_entry_witness:
  "IsInit (demo_workload ''c1'' ''web'' True)
   \<and> InitContainers (build_patch id ''t'' (demo_preset ''c1'') (demo_workload ''c1'' ''web'' True)
        ''reg-c1/app:prod'' \<lparr>Min_v = 0, Max_v = 0\<rparr> \<lparr>Min_v = 0, Max_v = 0\<rparr>)
       = [\<lparr>i_Image = ''reg-c1/app:prod'', i_Name = ''main'', i_ImagePullPolicy = ''Always''\<rparr>]
   \<and> Containers (build_patch id ''t'' (demo_preset ''c1'') (demo_workload ''c1'' ''web'' True)
        ''reg-c1/app:prod'' \<lparr>Min_v = 0, Max_v = 0\<rparr> \<lparr>Min_v = 0, Max_v = 0\<rparr>) = []
   \<and> \<not> IsInit (demo_workload ''c1'' ''web'' False)
   \<and> Containers (build_patch id ''t'' (demo_preset ''c1'') (demo_workload ''c1'' ''web'' False)
        ''reg-c1/app:prod'' \<lparr>Min_v = 0, Max_v = 0\<rparr> \<lparr>Min_v = 0, Max_v = 0\<rparr>)
       = [\<lparr>c_Image = ''reg-c1/app:prod'', c_Name = ''main'', c_ImagePullPolicy = ''Always'',
           c_Resources = \<lparr>Requests = \<lparr>CPU = ''100m'', Memory = ''256Mi''\<rparr>,
                          Limits = \<lparr>CPU = ''200m'', Memory = ''512Mi''\<rparr>\<rparr>\<rparr>]
   \<and> InitContainers (build_patch id ''t'' (demo_preset ''c1'') (demo_workload ''c1'' ''web'' False)
        ''reg-c1/app:prod'' \<lparr>Min_v = 0, Max_v = 0\<rparr> \<lparr>Min_v = 0, Max_v = 0\<rparr>) = []
   \<and> patch_workload (demo_collab ''app.prod'' [] [] []) (demo_options [] [] [] False)
        (demo_workload ''c1'' ''web'' False) (demo_preset ''c1'') [''reg-c1/app:prod'']
        \<lparr>trace = [], usedImageNames = []\<rparr>
       = (\<lparr>trace = [(CWriteFile ''kc'' ''deployer-kubeconfig'' ''.yml'' False, True),
                     (CKubectlPatch ''/tmp/kc.yml'' ''ns'' ''ns'' ''deployment'' ''{T1}'', True)],
           usedImageNames = []\<rparr>, None)"
proof -
  let ?z = "\<lparr>Min_v = 0, Max_v = 0\<rparr>"
  let ?c = "demo_collab ''app.prod'' [] [] []"
  let ?o = "demo_options [] [] [] False"
  let ?st = "\<lparr>trace = [(CWriteFile ''kc'' ''deployer-kubeconfig'' ''.yml'' False, True),
                     (CKubectlPatch ''/tmp/kc.yml'' ''ns'' ''ns'' ''deployment'' ''{T1}'', True)],
           usedImageNames = []\<rparr>"
  have init: "IsInit (demo_workload ''c1'' ''web'' True)"
    and main: "\<not> IsInit (demo_workload ''c1'' ''web'' False)"
    and name: "Container (demo_workload ''c1'' ''web'' True) = ''main''"
      "Container (demo_workload ''c1'' ''web'' False) = ''main''"
    by (simp_all add: demo_workload_def)
  have res: "container_resources (demo_preset ''c1'') ?z ?z =
      \<lparr>Requests = \<lparr>CPU = ''100m'', Memory = ''256Mi''\<rparr>,
       Limits = \<lparr>CPU = ''200m'', Memory = ''512Mi''\<rparr>\<rparr>"
    by (simp add: container_resources_def IsZero_def demo_preset_def)
  have run: "patch_workload ?c ?o (demo_workload ''c1'' ''web'' False) (demo_preset ''c1'')
       [''reg-c1/app:prod''] \<lparr>trace = [], usedImageNames = []\<rparr> = (?st, None)"
    by (simp add: run_defs digits.simps)
  note init_entry = patch_single_entry [of "demo_workload ''c1'' ''web'' True" id "''t''"
      "demo_preset ''c1''" "''reg-c1/app:prod''" ?z ?z ?c ?o "[''reg-c1/app:prod'']"
      "\<lparr>trace = [], usedImageNames = []\<rparr>" ?st, THEN conjunct1, rule_format, OF init]
  note main_entry = patch_single_entry [of "demo_workload ''c1'' ''web'' False" id "''t''"
      "demo_preset ''c1''" "''reg-c1/app:prod''" ?z ?z ?c ?o "[''reg-c1/app:prod'']"
      "\<lparr>trace = [], usedImageNames = []\<rparr>" ?st, THEN conjunct2, THEN conjunct1, rule_format,
      OF main]
  from init_entry main_entry init main run show ?thesis
    by (simp only: name res) simp
qed

text \<open>
  C1. The cluster-patch executor is to be called with the path of the kubeconfig, the
  workload's namespace, the workload's name as the name of the resource, the
  workload's kind and the patch. The call at line 196 passes the workload's namespace
  twice, as the namespace and again where the name of the resource goes, and
  \<^verbatim>\<open>workload.Name\<close> is not passed: for the workload \<^verbatim>\<open>c1/ns/deployment/web\<close> the
  executor is called with the resource name \<^verbatim>\<open>ns\<close>, not \<^verbatim>\<open>web\<close>.
\<close>

theorem kubectl_patch_resource_name:
  "Name (demo_workload ''c1'' ''web'' False) = ''web''
   \<and> Namespace (demo_workload ''c1'' ''web'' False) = ''ns''
   \<and> filter (is_patch \<circ> fst)
        (r_trace (main (demo_collab ''app.prod'' [] [] [])
                    (demo_options [] [] [demo_workload ''c1'' ''web'' False] False)))
       = [(CKubectlPatch ''/tmp/kc.yml'' ''ns'' ''ns'' ''deployment'' ''{T9}'', True)]"
  by (simp add: run_defs digits.simps)

text \<open>
  C9, as stated: two workloads on the cluster \<^verbatim>\<open>c1\<close> make two calls of
  \<^verbatim>\<open>LoadPreset\<close> for \<^verbatim>\<open>c1\<close>.
\<close>

theorem preset_loaded_twice:
  "preset_loads
     (r_trace (main (demo_collab ''app.prod'' [] [] [])
                 (demo_options [] []
                    [demo_workload ''c1'' ''web'' False, demo_workload ''c1'' ''api'' False] True)))
   = [''c1'', ''c1'']"
  by (simp add: run_defs trace_defs)

text \<open>
  C9, amended. \<^verbatim>\<open>LoadPreset\<close> is called once for every workload the loop reaches,
  with the cluster of that workload, in the order of the list, whether or not the
  cluster was seen before: the clusters of the calls are those of a prefix of the
  workloads, and of all workloads when the run ends without error.
\<close>

theorem preset_loaded_per_workload:
  "(\<exists>k\<le>length (optWorkloads opts).
      preset_loads (r_trace (main c opts)) = map Cluster (take k (optWorkloads opts)))
   \<and> (r_err (main c opts) = None \<longrightarrow>
        preset_loads (r_trace (main c opts)) = map Cluster (optWorkloads opts))"
proof (cases rule: main_cases [of opts c])
  case missing
  from missing(3) have "preset_loads (r_trace (main c opts)) = []"
    "r_err (main c opts) \<noteq> None"
    by (simp_all add: finish_def Let_def trace_defs)
  then show ?thesis by (auto intro: exI [of _ 0])
next
  case (ran img env st r deferred)
  obtain cl where cl: "r_trace (main c opts) = trace st @ cl" "\<forall>e\<in>set cl. is_cleanup (fst e)"
    unfolding ran(3) by (rule finish_cleanup)
  from cleanup_projections [OF cl(2)] cl(1)
  have "preset_loads (r_trace (main c opts)) = preset_loads (trace st)"
    by (simp add: preset_loads_def)
  moreover have "r_err (main c opts) = r"
    unfolding ran(3) by (rule finish_fields)
  ultimately show ?thesis using pipeline_loads [OF ran(2)] by simp
qed

theorem preset_loaded_per_workload_witness:
  "r_err (main (demo_collab ''app.prod'' [] [] [])
            (demo_options [] []
               [demo_workload ''c1'' ''web'' False, demo_workload ''c2'' ''web'' False,
                demo_workload ''c1'' ''api'' False] False)) = None
   \<and> preset_loads (r_trace (main (demo_collab ''app.prod'' [] [] [])
            (demo_options [] []
               [demo_workload ''c1'' ''web'' False, demo_workload ''c2'' ''web'' False,
                demo_workload ''c1'' ''api'' False] False)))
       = [''c1'', ''c2'', ''c1'']"
proof -
  let ?c = "demo_collab ''app.prod'' [] [] []"
  let ?o = "demo_options [] []
               [demo_workload ''c1'' ''web'' False, demo_workload ''c2'' ''web'' False,
                demo_workload ''c1'' ''api'' False] False"
  have ok: "r_err (main ?c ?o) = None"
    by (simp add: run_defs digits.simps)
  have "map Cluster (optWorkloads ?o) = [''c1'', ''c2'', ''c1'']"
    by (simp add: demo_options_def demo_workload_def)
  with preset_loaded_per_workload [of ?o ?c, THEN conjunct2, rule_format, OF ok] ok
  show ?thesis by simp
qed

text \<open>
  C6. A failure of a stage aborts the rest of the pipeline: when a call other than a
  clean-up call fails, every call before it had succeeded, every call after it is a
  clean-up call (the removal of an image or \<^verbatim>\<open>tempfile.DeleteAll\<close>), so that no later
  workload is loaded, tagged, pushed or patched, and the process exits with status 1.
\<close>

theorem failure_aborts_pipeline:
  assumes "r_trace (main c opts) = pre @ (x, False) # post" and "\<not> is_cleanup x"
  shows "(\<forall>e\<in>set pre. snd e) \<and> (\<forall>e\<in>set post. is_cleanup (fst e))
       \<and> r_err (main c opts) \<noteq> None \<and> r_exit (main c opts) = 1"
proof (cases rule: main_cases [of opts c])
  case missing
  from missing(3) have "r_trace (main c opts) = [(CTempDeleteAll, True)]"
    by (simp add: finish_def Let_def)
  with assms show ?thesis by (cases pre) simp_all
next
  case (ran img env st r deferred)
  obtain cl where cl: "r_trace (main c opts) = trace st @ cl" "\<forall>e\<in>set cl. is_cleanup (fst e)"
    unfolding ran(3) by (rule finish_cleanup)
  have fields: "r_err (main c opts) = r" "r_exit (main c opts) = exit_code r"
    unfolding ran(3) by (rule finish_fields)+
  from pipeline_ok [OF ran(2)]
  have ok: "\<forall>e\<in>set (butlast (trace st)). snd e" "r = None \<longrightarrow> (\<forall>e\<in>set (trace st). snd e)"
    by simp_all
  from cl(1) assms(1) have "trace st @ cl = pre @ (x, False) # post" by simp
  from failure_is_last [OF this ok(1) cl(2) assms(2)]
  have body: "trace st = pre @ [(x, False)]" and post: "post = cl" by simp_all
  from body ok(1) have "\<forall>e\<in>set pre. snd e" by simp
  moreover from post cl(2) have "\<forall>e\<in>set post. is_cleanup (fst e)" by simp
  moreover from body ok(2) have "r \<noteq> None" by auto
  moreover from pipeline_no_panic [OF ran(2) image_names_nonempty] have "r \<noteq> Some GoPanic" .
  ultimately show ?thesis using fields exit_code_failed by simp
qed

theorem failure_aborts_pipeline_witness:
  "r_trace (main (demo_collab ''app.prod'' [] [] [''reg-c1/app:prod''])
              (demo_options [] []
                 [demo_workload ''c1'' ''web'' False, demo_workload ''c2'' ''web'' False] False))
     = [(CLoadManifestFile ''deployer.yml'', True), (CGenerateFiles ''prod'', True),
        (CExecute ''build.sh'', True), (CDockerBuild ''Dockerfile'' ''app:prod'', True),
        (CLoadPreset ''c1'', True),
        (CWriteDirFile ''dc'' ''deployer-dockerconfig'' ''config.json'' False, True),
        (CDockerTag ''app:prod'' ''reg-c1/app:prod'', True)]
       @ (CDockerPush ''reg-c1/app:prod'' ''/tmp/dc'', False)
       # [(CDockerRemoveImage ''app:prod'', True), (CDockerRemoveImage ''reg-c1/app:prod'', True),
          (CTempDeleteAll, True)]
   \<and> \<not> is_cleanup (CDockerPush ''reg-c1/app:prod'' ''/tmp/dc'')
   \<and> r_exit (main (demo_collab ''app.prod'' [] [] [''reg-c1/app:prod''])
              (demo_options [] []
                 [demo_workload ''c1'' ''web'' False, demo_workload ''c2'' ''web'' False] False)) = 1"
proof -
  let ?c = "demo_collab ''app.prod'' [] [] [''reg-c1/app:prod'']"
  let ?o = "demo_options [] []
                 [demo_workload ''c1'' ''web'' False, demo_workload ''c2'' ''web'' False] False"
  have run: "r_trace (main ?c ?o)
     = [(CLoadManifestFile ''deployer.yml'', True), (CGenerateFiles ''prod'', True),
        (CExecute ''build.sh'', True), (CDockerBuild ''Dockerfile'' ''app:prod'', True),
        (CLoadPreset ''c1'', True),
        (CWriteDirFile ''dc'' ''deployer-dockerconfig'' ''config.json'' False, True),
        (CDockerTag ''app:prod'' ''reg-c1/app:prod'', True)]
       @ (CDockerPush ''reg-c1/app:prod'' ''/tmp/dc'', False)
       # [(CDockerRemoveImage ''app:prod'', True), (CDockerRemoveImage ''reg-c1/app:prod'', True),
          (CTempDeleteAll, True)]"
    by (simp add: run_defs)
  have stage: "\<not> is_cleanup (CDockerPush ''reg-c1/app:prod'' ''/tmp/dc'')" by simp
  from failure_aborts_pipeline [OF run stage] run stage show ?thesis by simp
qed

text \<open>
  C8. With \<^verbatim>\<open>--skip-deploy\<close> the cluster-patch executor is never called. The tag and
  push stages run all the same: when the run ends without error, \<^verbatim>\<open>LoadPreset\<close> was
  called for every workload in order, and for every workload every image name was
  tagged and pushed under one registry.
\<close>

theorem skip_deploy_never_patches:
  assumes "optSkipDeploy opts"
  shows "(\<forall>e\<in>set (r_trace (main c opts)). \<not> is_patch (fst e))
    \<and> (r_err (main c opts) = None \<longrightarrow>
         preset_loads (r_trace (main c opts)) = map Cluster (optWorkloads opts)
         \<and> (\<exists>img env regs.
              resolve_job_name (optImage opts) (optEnv opts) (Getenv c ''JOB_NAME'') = Inr (img, env)
              \<and> length regs = length (optWorkloads opts)
              \<and> tagged (r_trace (main c opts)) =
                  concat (map (\<lambda>reg. map (\<lambda>n. reg @ ''/'' @ n)
                                 (image_names img env (Getenv c ''BUILD_NUMBER''))) regs)
              \<and> pushed (r_trace (main c opts)) =
                  concat (map (\<lambda>reg. map (\<lambda>n. reg @ ''/'' @ n)
                                 (image_names img env (Getenv c ''BUILD_NUMBER''))) regs)))"
proof (cases rule: main_cases [of opts c])
  case missing
  from missing(3) show ?thesis by (simp add: finish_def Let_def)
next
  case (ran img env st r deferred)
  obtain cl where cl: "r_trace (main c opts) = trace st @ cl" "\<forall>e\<in>set cl. is_cleanup (fst e)"
    unfolding ran(3) by (rule finish_cleanup)
  have err: "r_err (main c opts) = r"
    unfolding ran(3) by (rule finish_fields)
  have "\<not> is_patch (fst e)" if "e \<in> set cl" for e
    using cl(2) that by (cases "fst e") auto
  with pipeline_skip [OF ran(2) _ assms] cl(1)
  have none: "\<forall>e\<in>set (r_trace (main c opts)). \<not> is_patch (fst e)" by auto
  have "preset_loads (r_trace (main c opts)) = map Cluster (optWorkloads opts)
         \<and> (\<exists>img env regs.
              resolve_job_name (optImage opts) (optEnv opts) (Getenv c ''JOB_NAME'') = Inr (img, env)
              \<and> length regs = length (optWorkloads opts)
              \<and> tagged (r_trace (main c opts)) =
                  concat (map (\<lambda>reg. map (\<lambda>n. reg @ ''/'' @ n)
                                 (image_names img env (Getenv c ''BUILD_NUMBER''))) regs)
              \<and> pushed (r_trace (main c opts)) =
                  concat (map (\<lambda>reg. map (\<lambda>n. reg @ ''/'' @ n)
                                 (image_names img env (Getenv c ''BUILD_NUMBER''))) regs))"
    if "r = None"
  proof -
    from ran(2) that have run: "pipeline c opts env (image_names img env (Getenv c ''BUILD_NUMBER''))
         \<lparr>trace = [], usedImageNames = []\<rparr> = (st, None, deferred)" by simp
    from pipeline_loads [OF run]
    have "preset_loads (r_trace (main c opts)) = map Cluster (optWorkloads opts)"
      by (simp add: cl(1) projections_before_cleanup [OF cl(2)])
    moreover from pipeline_pushed [OF run] obtain regs where
      "length regs = length (optWorkloads opts)"
      "tagged (r_trace (main c opts)) =
         concat (map (\<lambda>reg. map (\<lambda>n. reg @ ''/'' @ n)
                        (image_names img env (Getenv c ''BUILD_NUMBER''))) regs)"
      "pushed (r_trace (main c opts)) =
         concat (map (\<lambda>reg. map (\<lambda>n. reg @ ''/'' @ n)
                        (image_names img env (Getenv c ''BUILD_NUMBER''))) regs)"
      by (auto simp: cl(1) projections_before_cleanup [OF cl(2)])
    ultimately show ?thesis using ran(1) by blast
  qed
  with none err show ?thesis by simp
qed

theorem skip_deploy_never_patches_witness:
  "optSkipDeploy (demo_options [] []
      [demo_workload ''c1'' ''web'' False, demo_workload ''c2'' ''web'' False] True)
   \<and> r_err (main (demo_collab ''app.prod'' [] [] [])
        (demo_options [] []
           [demo_workload ''c1'' ''web'' False, demo_workload ''c2'' ''web'' False] True)) = None
   \<and> filter (is_patch \<circ> fst)
       (r_trace (main (demo_collab ''app.prod'' [] [] [])
          (demo_options [] []
             [demo_workload ''c1'' ''web'' False, demo_workload ''c2'' ''web'' False] True))) = []
   \<and> pushed
       (r_trace (main (demo_collab ''app.prod'' [] [] [])
          (demo_options [] []
             [demo_workload ''c1'' ''web'' False, demo_workload ''c2'' ''web'' False] True)))
       = [''reg-c1/app:prod'', ''reg-c2/app:prod'']"
proof -
  let ?c = "demo_collab ''app.prod'' [] [] []"
  let ?o = "demo_options [] []
      [demo_workload ''c1'' ''web'' False, demo_workload ''c2'' ''web'' False] True"
  have skip: "optSkipDeploy ?o" by (simp add: demo_options_def)
  have ok: "r_err (main ?c ?o) = None" by (simp add: run_defs)
  have pushed: "pushed (r_trace (main ?c ?o)) = [''reg-c1/app:prod'', ''reg-c2/app:prod'']"
    by (simp add: run_defs trace_defs)
  from skip_deploy_never_patches [OF skip, of ?c, THEN conjunct1]
  have "filter (is_patch \<circ> fst) (r_trace (main ?c ?o)) = []"
    by (simp add: filter_empty_conv)
  with skip ok pushed show ?thesis by simp
qed

text \<open>
  C7, as stated: in a run that completes packaging, the tag step is executed for a
  derived name and fails; the name is not in the accumulator.
\<close>

theorem failed_tag_not_recorded:
  "(CDockerBuild ''Dockerfile'' ''app:prod'', True)
     \<in> set (r_trace (main (demo_collab ''app.prod'' [] [''reg-c1/app:prod''] [])
                       (demo_options [] [] [demo_workload ''c1'' ''web'' False] False)))
   \<and> (CDockerTag ''app:prod'' ''reg-c1/app:prod'', False)
     \<in> set (r_trace (main (demo_collab ''app.prod'' [] [''reg-c1/app:prod''] [])
                       (demo_options [] [] [demo_workload ''c1'' ''web'' False] False)))
   \<and> ''reg-c1/app:prod''
     \<notin> set (r_used (main (demo_collab ''app.prod'' [] [''reg-c1/app:prod''] [])
                      (demo_options [] [] [demo_workload ''c1'' ''web'' False] False)))"
  by (simp add: run_defs)

text \<open>
  C7, amended. In a run that completes packaging, the accumulator holds the primary
  build tag followed by the derived names whose tag step succeeded, in order; a name
  is recorded before its push is attempted, so every name handed to the push executor
  is in it. The deferred clean-up calls the removal of an image for exactly the
  names of the accumulator, in order, after the last stage call and before
  \<^verbatim>\<open>tempfile.DeleteAll\<close>, however the run ends.
\<close>

theorem used_image_names_removed:
  assumes "(CDockerBuild f p, True) \<in> set (r_trace (main c opts))"
  shows "r_used (main c opts) = p # tagged (r_trace (main c opts))
    \<and> set (push_calls (r_trace (main c opts))) \<subseteq> set (tagged (r_trace (main c opts)))
    \<and> removals (r_trace (main c opts)) = r_used (main c opts)
    \<and> (\<exists>body. map fst (r_trace (main c opts)) =
                  body @ map CDockerRemoveImage (r_used (main c opts)) @ [CTempDeleteAll]
               \<and> (\<forall>x\<in>set body. \<not> is_cleanup x))
    \<and> (\<exists>img env.
          resolve_job_name (optImage opts) (optEnv opts) (Getenv c ''JOB_NAME'') = Inr (img, env)
          \<and> Primary (image_names img env (Getenv c ''BUILD_NUMBER'')) = Some p)"
proof (cases rule: main_cases [of opts c])
  case missing
  from missing(3) have "r_trace (main c opts) = [(CTempDeleteAll, True)]"
    by (simp add: finish_def Let_def)
  with assms show ?thesis by simp
next
  case (ran img env st r deferred)
  obtain cl where cl: "r_trace (main c opts) = trace st @ cl" "\<forall>e\<in>set cl. is_cleanup (fst e)"
    "map fst cl =
       (if deferred then map CDockerRemoveImage (usedImageNames st) else []) @ [CTempDeleteAll]"
    "removals cl = (if deferred then usedImageNames st else [])"
    unfolding ran(3) by (rule finish_cleanup)
  have used: "r_used (main c opts) = usedImageNames st"
    unfolding ran(3) by (rule finish_fields)
  from cl(2) have "(CDockerBuild f p, True) \<notin> set cl" by auto
  with assms cl(1) have built: "(CDockerBuild f p, True) \<in> set (trace st)" by simp
  with pipeline_packaged [OF ran(2)]
  have deferred: deferred and primary: "Primary (image_names img env (Getenv c ''BUILD_NUMBER'')) = Some p"
    by auto
  from pipeline_used [OF ran(2)] deferred primary
  have "usedImageNames st = p # tagged (trace st)" by simp
  with used have "r_used (main c opts) = p # tagged (r_trace (main c opts))"
    by (simp add: cl(1) projections_before_cleanup [OF cl(2)])
  moreover from pipeline_push_after_tag [OF ran(2)]
  have "set (push_calls (r_trace (main c opts))) \<subseteq> set (tagged (r_trace (main c opts)))"
    by (simp add: cl(1) projections_before_cleanup [OF cl(2)])
  moreover from stage_removals [OF pipeline_stage_calls [OF ran(2)]] cl(1,4) deferred used
  have "removals (r_trace (main c opts)) = r_used (main c opts)"
    by (simp add: removals_def)
  moreover from pipeline_stage_calls [OF ran(2)] cl(1,3) deferred used
  have "map fst (r_trace (main c opts)) =
          map fst (trace st) @ map CDockerRemoveImage (r_used (main c opts)) @ [CTempDeleteAll]
        \<and> (\<forall>x\<in>set (map fst (trace st)). \<not> is_cleanup x)"
    by simp
  then have "\<exists>body. map fst (r_trace (main c opts)) =
                  body @ map CDockerRemoveImage (r_used (main c opts)) @ [CTempDeleteAll]
               \<and> (\<forall>x\<in>set body. \<not> is_cleanup x)"
    by blast
  ultimately show ?thesis using ran(1) primary by blast
qed

theorem used_image_names_removed_witness:
  "(CDockerBuild ''Dockerfile'' ''app:prod'', True)
     \<in> set (r_trace (main (demo_collab ''app.prod'' [] [] [''reg-c2/app:prod''])
                (demo_options [] []
                   [demo_workload ''c1'' ''web'' False, demo_workload ''c2'' ''web'' False] False)))
   \<and> pushed (r_trace (main (demo_collab ''app.prod'' [] [] [''reg-c2/app:prod''])
                (demo_options [] []
                   [demo_workload ''c1'' ''web'' False, demo_workload ''c2'' ''web'' False] False)))
       = [''reg-c1/app:prod'']
   \<and> r_used (main (demo_collab ''app.prod'' [] [] [''reg-c2/app:prod''])
                (demo_options [] []
                   [demo_workload ''c1'' ''web'' False, demo_workload ''c2'' ''web'' False] False))
       = [''app:prod'', ''reg-c1/app:prod'', ''reg-c2/app:prod'']
   \<and> removals (r_trace (main (demo_collab ''app.prod'' [] [] [''reg-c2/app:prod''])
                (demo_options [] []
                   [demo_workload ''c1'' ''web'' False, demo_workload ''c2'' ''web'' False] False)))
       = [''app:prod'', ''reg-c1/app:prod'', ''reg-c2/app:prod'']
   \<and> r_exit (main (demo_collab ''app.prod'' [] [] [''reg-c2/app:prod''])
                (demo_options [] []
                   [demo_workload ''c1'' ''web'' False, demo_workload ''c2'' ''web'' False] False))
       = 1"
proof -
  let ?c = "demo_collab ''app.prod'' [] [] [''reg-c2/app:prod'']"
  let ?o = "demo_options [] []
              [demo_workload ''c1'' ''web'' False, demo_workload ''c2'' ''web'' False] False"
  have built: "(CDockerBuild ''Dockerfile'' ''app:prod'', True) \<in> set (r_trace (main ?c ?o))"
    by (simp add: run_defs digits.simps)
  have tags: "tagged (r_trace (main ?c ?o)) = [''reg-c1/app:prod'', ''reg-c2/app:prod'']"
    and pushes: "pushed (r_trace (main ?c ?o)) = [''reg-c1/app:prod'']"
    and status: "r_exit (main ?c ?o) = 1"
    by (simp_all add: run_defs trace_defs digits.simps)
  note given = used_image_names_removed [OF built]
  from given tags have used: "r_used (main ?c ?o) = [''app:prod'', ''reg-c1/app:prod'', ''reg-c2/app:prod'']"
    by simp
  from given used have "removals (r_trace (main ?c ?o)) = [''app:prod'', ''reg-c1/app:prod'', ''reg-c2/app:prod'']"
    by simp
  with built pushes used status show ?thesis by simp
qed

end
